theory Spec2Isabelle
  imports Complex_Main
begin

section \<open>Evaluation of derivatives of finite element basis functions\<close>

text \<open>
  The module \<^verbatim>\<open>ffc/evaluatebasisderivatives.py\<close> is a generator: every function of it
  returns the text of a piece of a C++ procedure, put together from the entries of the
  table \<^verbatim>\<open>format\<close>. The embedding gives each generator function the meaning of the text it
  returns: a function from the variables that text reads to the variables it writes.
  Where a generator function calls \<^verbatim>\<open>error\<close> the embedding returns \<open>Inl\<close> of an error and no
  procedure exists.

  The entries of \<^verbatim>\<open>format\<close> are read by their names:
  \<^item> \<^verbatim>\<open>generate loop\<close> with loop variables \<open>(r, 0, n)\<close> is a counting loop over \<open>0 \<le> r < n\<close>,
    nested in the order of the list; it is a \<open>fold\<close> over \<open>[0..<n]\<close>;
  \<^item> \<^verbatim>\<open>assign\<close>, \<^verbatim>\<open>iadd\<close> and \<^verbatim>\<open>imul\<close> are the assignments \<open>=\<close>, \<open>+=\<close> and \<open>*=\<close>;
  \<^item> \<^verbatim>\<open>if\<close> and \<^verbatim>\<open>is equal\<close> are a conditional statement and the test \<open>==\<close>;
  \<^item> \<^verbatim>\<open>component\<close> is an array access, \<^verbatim>\<open>matrix index\<close> \<open>(i, j, range_j)\<close> is the flat
    index \<open>i * range_j + j\<close>;
  \<^item> \<^verbatim>\<open>multiply\<close>, \<^verbatim>\<open>mul\<close>, \<^verbatim>\<open>add\<close>, \<^verbatim>\<open>inverse\<close> and \<^verbatim>\<open>grouping\<close> are products, sums, the
    reciprocal and brackets.

  Floating point numbers are modelled as real numbers, so rounding is left out, and the
  counters of the procedure are natural numbers. One dimensional arrays are functions
  from the index, two dimensional arrays are functions from the pair of indices.
\<close>

subsection \<open>Number of derivatives and table of combinations\<close>

text \<open>
  \<^verbatim>\<open>_compute_num_derivatives\<close>: the variable \<^verbatim>\<open>num_derivatives\<close> is declared with value 1 and
  multiplied by the topological dimension once for each \<open>r\<close> below the derivative order.
\<close>

definition compute_num_derivatives :: "nat \<Rightarrow> nat \<Rightarrow> nat" where
  "compute_num_derivatives topological_dimension n =
     fold (\<lambda>r num_derivatives. num_derivatives * topological_dimension) [0..<n] 1"

text \<open>
  Modelled from the spec: the snippet \<^verbatim>\<open>format["combinations"]\<close> is missing from the
  sources. The table has \<^verbatim>\<open>num_derivatives\<close> rows of \<open>n\<close> entries; row \<open>r\<close> is the expansion of
  \<open>r\<close> in base \<open>d\<close> with \<open>n\<close> digits, the most significant digit first. The snippet is given
  the topological dimension minus one.
\<close>

definition combinations_snippet :: "int \<Rightarrow> nat \<Rightarrow> nat \<Rightarrow> nat list list" where
  "combinations_snippet topological_dimension_minus_1 num_derivatives n =
     map (\<lambda>r. map (\<lambda>k. (r div nat (topological_dimension_minus_1 + 1) ^ (n - 1 - k))
                          mod nat (topological_dimension_minus_1 + 1)) [0..<n])
         [0..<num_derivatives]"

text \<open>\<^verbatim>\<open>_generate_combinations\<close> fills the parameters of the snippet.\<close>

definition generate_combinations :: "nat \<Rightarrow> nat \<Rightarrow> nat \<Rightarrow> nat list list" where
  "generate_combinations topological_dimension num_derivatives n =
     combinations_snippet (int topological_dimension - 1) num_derivatives n"

text \<open>The number that a row of digits denotes in base \<open>d\<close>, first digit most significant.\<close>

definition base_value :: "nat \<Rightarrow> nat list \<Rightarrow> nat" where
  "base_value d cs = foldl (\<lambda>a c. a * d + c) 0 cs"

text \<open>Row \<open>r\<close> of the table, written without the table around it.\<close>

definition digit_row :: "nat \<Rightarrow> nat \<Rightarrow> nat \<Rightarrow> nat list" where
  "digit_row d n r = map (\<lambda>k. (r div d ^ (n - 1 - k)) mod d) [0..<n]"

subsection \<open>Data of an element\<close>

text \<open>
  A numpy array of two dimensions is its shape and its entries. \<^verbatim>\<open>numpy.transpose\<close> swaps
  both, \<^verbatim>\<open>numpy.eye\<close> is the identity.
\<close>

type_synonym array = "nat \<Rightarrow> real"
type_synonym matrix = "nat \<times> nat \<Rightarrow> real"

record ndarray =
  shape :: "nat \<times> nat"
  entry :: matrix

definition numpy_transpose :: "ndarray \<Rightarrow> ndarray" where
  "numpy_transpose a = \<lparr>shape = (snd (shape a), fst (shape a)), entry = (\<lambda>(i, j). entry a (j, i))\<rparr>"

definition numpy_eye :: "nat \<Rightarrow> ndarray" where
  "numpy_eye k = \<lparr>shape = (k, k), entry = (\<lambda>(i, j). if i = j then 1 else 0)\<rparr>"

text \<open>The dictionary \<^verbatim>\<open>data\<close> of one element, with the keys that the module reads.\<close>

record element_data =
  family :: string
  cell_domain :: string
  mapping :: string
  value_shape :: "nat list"
  space_dimension :: nat
  topological_dimension :: nat
  geometric_dimension :: nat
  num_expansion_members :: nat
  dmats :: "ndarray list"
  coefficients :: "ndarray list"

text \<open>
  The variables of the generated procedure that the code of an element reads. The
  arguments \<^verbatim>\<open>i\<close> (\<^verbatim>\<open>argument basis num\<close>) and \<^verbatim>\<open>n\<close> (\<^verbatim>\<open>argument derivative order\<close>) come from
  the caller. The Jacobian, its inverse and its determinant are computed by the text of
  \<^verbatim>\<open>format["jacobian and inverse"]\<close>, and the values of the expansion basis at the point
  by the text of \<^verbatim>\<open>_compute_basisvalues\<close>; both are outside the module and are taken as
  given. The other fields are set by the procedure itself.
\<close>

record variables =
  basis_num :: nat
  derivative_order :: nat
  jacobian :: matrix
  jacobian_inverse :: matrix
  det_jacobian :: real
  basisvalues :: "element_data \<Rightarrow> array"
  num_derivatives :: nat
  derivative_combinations :: "nat list list"
  transform_matrix :: matrix
  local_dof :: nat

text \<open>
  The errors. \<open>Exception_msg\<close> is the procedure whose body is \<^verbatim>\<open>format["exception"]\<close>, the
  others are calls of \<^verbatim>\<open>error\<close> and \<^verbatim>\<open>ffc_assert\<close> and the \<^verbatim>\<open>IndexError\<close> of reading entry 0 of
  an empty list. \<open>Undeclared_tmp\<close> stands for a procedure text that names a temporary
  value it never declares.
\<close>

datatype error =
    Exception_msg string
  | Cannot_generate_transform string
  | Dmats_shape_wrong
  | Tensor_valued_not_supported string
  | Unknown_mapping string
  | Index_error
  | Undeclared_tmp

type_synonym element_code = "variables \<Rightarrow> array \<Rightarrow> array"

subsection \<open>The transformation matrix and the reset of the values\<close>

text \<open>
  Modelled from the spec: the snippets \<^verbatim>\<open>format["transform snippet"]\<close> are missing from the
  sources. The entry of the transformation matrix at \<open>(r, r')\<close> is the product over
  \<open>k < n\<close> of the entries of the inverse Jacobian at
  \<open>(combinations[r][k], combinations[r'][k])\<close>.
\<close>

definition transform_snippet :: "variables \<Rightarrow> matrix" where
  "transform_snippet vars =
     (\<lambda>(r, r'). prod_list (map (\<lambda>k. jacobian_inverse vars
         (derivative_combinations vars ! r ! k, derivative_combinations vars ! r' ! k))
         [0..<derivative_order vars]))"

text \<open>\<^verbatim>\<open>_generate_transform\<close>: only three cell domains have a snippet.\<close>

definition generate_transform :: "string \<Rightarrow> error + (variables \<Rightarrow> matrix)" where
  "generate_transform element_cell_domain =
     (if element_cell_domain \<in> set [''interval'', ''triangle'', ''tetrahedron'']
      then Inr transform_snippet
      else Inl (Cannot_generate_transform element_cell_domain))"

text \<open>
  The sum of the value shapes over the elements, as \<^verbatim>\<open>_reset_values\<close>,
  \<^verbatim>\<open>_evaluate_basis_derivatives_all\<close> and \<^verbatim>\<open>_mixed_elements\<close> compute it: an empty shape counts
  as \<open>(1,)\<close>.
\<close>

definition value_dim_of :: "element_data \<Rightarrow> nat" where
  "value_dim_of data = sum_list (if value_shape data = [] then [1] else value_shape data)"

definition total_value_shape :: "element_data list \<Rightarrow> nat" where
  "total_value_shape data_list = sum_list (map value_dim_of data_list)"

definition total_space_dimension :: "element_data list \<Rightarrow> nat" where
  "total_space_dimension data_list = sum_list (map space_dimension data_list)"

text \<open>\<^verbatim>\<open>_reset_values\<close>: every entry of \<^verbatim>\<open>values\<close> below \<^verbatim>\<open>num_vals\<close> is set to zero.\<close>

definition reset_values :: "element_data list \<Rightarrow> variables \<Rightarrow> array \<Rightarrow> array" where
  "reset_values data_list vars values =
     (let value_shape = total_value_shape data_list;
          num_vals = (if value_shape = 1 then num_derivatives vars
                      else value_shape * num_derivatives vars)
      in fold (\<lambda>r values. values(r := 0)) [0..<num_vals] values)"

subsection \<open>The tables of derivatives and the chain of matrix products\<close>

text \<open>
  \<^verbatim>\<open>_tabulate_dmats\<close>: for each direction the table that the procedure declares is the
  transpose of the matrix of the element, after a check of its shape.
\<close>

definition tabulate_dmats :: "element_data \<Rightarrow> error + ndarray list" where
  "tabulate_dmats data =
     (if list_all (\<lambda>dmat. let matrix = numpy_transpose dmat in
                      fst (shape matrix) = snd (shape matrix)
                      \<and> snd (shape matrix) = num_expansion_members data) (dmats data)
      then Inr (map numpy_transpose (dmats data))
      else Inl Dmats_shape_wrong)"

text \<open>\<^verbatim>\<open>_reset_dmats\<close>: the accumulator \<^verbatim>\<open>dmats\<close> is set to the identity.\<close>

definition reset_dmats :: "nat \<times> nat \<Rightarrow> matrix \<Rightarrow> matrix" where
  "reset_dmats shape_dmats =
     fold (\<lambda>t. fold (\<lambda>u D. let D' = D((t, u) := 0) in
                      if t = u then D'((t, u) := 1) else D')
                [0..<snd shape_dmats])
          [0..<fst shape_dmats]"

text \<open>
  \<^verbatim>\<open>_update_dmats\<close>: the accumulator is copied to \<^verbatim>\<open>dmats_old\<close> and set to zero. The state is
  the pair of \<^verbatim>\<open>dmats\<close> and \<^verbatim>\<open>dmats_old\<close>.
\<close>

definition update_dmats :: "nat \<times> nat \<Rightarrow> matrix \<times> matrix \<Rightarrow> matrix \<times> matrix" where
  "update_dmats shape_dmats =
     fold (\<lambda>t. fold (\<lambda>u (D, D_old). (D((t, u) := 0), D_old((t, u) := D (t, u))))
                [0..<snd shape_dmats])
          [0..<fst shape_dmats]"

text \<open>
  \<^verbatim>\<open>_dmats_product\<close>: if the digit \<open>index\<close> of the combination is \<open>i\<close>, the product of table
  \<open>i\<close> and \<^verbatim>\<open>dmats_old\<close> is added to the accumulator, entry by entry.
\<close>

definition dmats_product ::
    "nat \<times> nat \<Rightarrow> nat \<Rightarrow> nat \<Rightarrow> ndarray list \<Rightarrow> matrix \<times> matrix \<Rightarrow> matrix \<times> matrix" where
  "dmats_product shape_dmats index i tables = (\<lambda>(D, D_old).
     if index = i then
       (fold (\<lambda>t. fold (\<lambda>u. fold (\<lambda>tu D.
                 D((t, u) := D (t, u) + entry (tables ! i) (t, tu) * D_old (tu, u)))
                 [0..<fst shape_dmats])
               [0..<snd shape_dmats])
             [0..<fst shape_dmats] D, D_old)
     else (D, D_old))"

text \<open>
  \<^verbatim>\<open>_compute_dmats\<close>: the accumulator is reset, and for each \<open>s\<close> below the derivative order
  it is copied away and rebuilt by the product that the digit
  \<open>combinations[deriv_index][s]\<close> selects.
\<close>

definition compute_dmats ::
    "nat \<Rightarrow> nat \<times> nat \<Rightarrow> ndarray list \<Rightarrow> variables \<Rightarrow> nat \<Rightarrow> matrix \<times> matrix \<Rightarrow> matrix \<times> matrix" where
  "compute_dmats num_dmats shape_dmats tables vars deriv_index = (\<lambda>(D, D_old).
     fold (\<lambda>s state.
             fold (\<lambda>i. dmats_product shape_dmats
                          (derivative_combinations vars ! deriv_index ! s) i tables)
                  [0..<num_dmats] (update_dmats shape_dmats state))
          [0..<derivative_order vars]
          (reset_dmats shape_dmats D, D_old))"

subsection \<open>Derivatives on the reference element\<close>

text \<open>
  The number of components of the element, as both \<^verbatim>\<open>_compute_reference_derivatives\<close> and
  \<^verbatim>\<open>_transform_derivatives\<close> compute it in their first lines: a value shape with more than
  one entry is an error.
\<close>

definition num_components :: "element_data \<Rightarrow> error + nat" where
  "num_components data =
     (if value_shape data = [] then Inr 1
      else if length (value_shape data) = 1 then Inr (value_shape data ! 0)
      else Inl (Tensor_valued_not_supported (family data)))"

text \<open>
  Modelled from the spec: \<^verbatim>\<open>_tabulate_coefficients\<close> is missing from the sources. The table
  \<^verbatim>\<open>format["coefficients"](c)\<close> that the procedure reads at \<open>[dof][s]\<close> is the matrix of
  component \<open>c\<close> of the element, of one row for each dof and one column for each member
  of the expansion basis.
\<close>

definition tabulate_coefficients :: "element_data \<Rightarrow> ndarray list" where
  "tabulate_coefficients data = coefficients data"

text \<open>
  The statements \<^verbatim>\<open>lines_c\<close> of \<^verbatim>\<open>_compute_reference_derivatives\<close> in their loops over \<open>s\<close>
  and \<open>t\<close>: for each component \<open>i\<close> the product of coefficient, accumulator and basis
  value is added to the entry \<open>i * num_derivatives + r\<close> of \<^verbatim>\<open>derivatives\<close>.
\<close>

definition reference_value_lines ::
    "element_data \<Rightarrow> nat \<Rightarrow> nat \<times> nat \<Rightarrow> variables \<Rightarrow> nat \<Rightarrow> matrix \<Rightarrow> array \<Rightarrow> array" where
  "reference_value_lines data nc shape_dmats vars r D =
     fold (\<lambda>s. fold (\<lambda>t. fold (\<lambda>i derivatives.
               derivatives(i * num_derivatives vars + r :=
                 derivatives (i * num_derivatives vars + r)
                 + entry (tabulate_coefficients data ! i) (local_dof vars, s) * D (s, t)
                   * basisvalues vars data t))
             [0..<nc])
           [0..<snd shape_dmats])
         [0..<fst shape_dmats]"

text \<open>
  The contravariant Piola transform of the values of combination \<open>r\<close>: the component
  values are saved in temporary values, and component \<open>i\<close> becomes the inverse of the
  determinant times the sum over \<open>j\<close> below the topological dimension of \<open>J_ij\<close> times the
  saved value \<open>j\<close>. In the real numbers \<open>1 / 0 = 0\<close>.
\<close>

definition contravariant_piola_lines :: "nat \<Rightarrow> nat \<Rightarrow> variables \<Rightarrow> nat \<Rightarrow> array \<Rightarrow> array" where
  "contravariant_piola_lines nc d vars r derivatives =
     (let tmp = map (\<lambda>i. derivatives (i * num_derivatives vars + r)) [0..<nc]
      in fold (\<lambda>i derivatives. derivatives(i * num_derivatives vars + r :=
                 (1 / det_jacobian vars)
                 * sum_list (map (\<lambda>j. jacobian vars (i, j) * tmp ! j) [0..<d])))
              [0..<nc] derivatives)"

text \<open>
  The covariant Piola transform: component \<open>i\<close> becomes the sum over \<open>j\<close> of \<open>Jinv_ji\<close> times
  the saved value \<open>j\<close>.
\<close>

definition covariant_piola_lines :: "nat \<Rightarrow> nat \<Rightarrow> variables \<Rightarrow> nat \<Rightarrow> array \<Rightarrow> array" where
  "covariant_piola_lines nc d vars r derivatives =
     (let tmp = map (\<lambda>i. derivatives (i * num_derivatives vars + r)) [0..<nc]
      in fold (\<lambda>i derivatives. derivatives(i * num_derivatives vars + r :=
                 sum_list (map (\<lambda>j. jacobian_inverse vars (j, i) * tmp ! j) [0..<d])))
              [0..<nc] derivatives)"

text \<open>
  The choice of the transform in \<^verbatim>\<open>_compute_reference_derivatives\<close>. The temporary values
  are declared for the components and read for the indices below the topological
  dimension, so a text with fewer components than that names a value it has not
  declared.
\<close>

definition mapping_lines ::
    "element_data \<Rightarrow> nat \<Rightarrow> error + (variables \<Rightarrow> nat \<Rightarrow> array \<Rightarrow> array)" where
  "mapping_lines data nc =
     (if mapping data = ''affine'' then Inr (\<lambda>vars r derivatives. derivatives)
      else if mapping data = ''contravariant piola'' then
        (if topological_dimension data \<le> nc
         then Inr (contravariant_piola_lines nc (topological_dimension data))
         else Inl Undeclared_tmp)
      else if mapping data = ''covariant piola'' then
        (if topological_dimension data \<le> nc
         then Inr (covariant_piola_lines nc (topological_dimension data))
         else Inl Undeclared_tmp)
      else Inl (Unknown_mapping (mapping data)))"

text \<open>
  The body of the loop over the combinations \<open>r\<close>: the chain of products, the sums of
  \<^verbatim>\<open>lines_c\<close>, the transform. The state is \<^verbatim>\<open>derivatives\<close> and the pair of \<^verbatim>\<open>dmats\<close> and
  \<^verbatim>\<open>dmats_old\<close>.
\<close>

definition reference_loop_body ::
    "element_data \<Rightarrow> ndarray list \<Rightarrow> nat \<Rightarrow> nat \<times> nat \<Rightarrow> (variables \<Rightarrow> nat \<Rightarrow> array \<Rightarrow> array)
       \<Rightarrow> variables \<Rightarrow> nat \<Rightarrow> array \<times> matrix \<times> matrix \<Rightarrow> array \<times> matrix \<times> matrix" where
  "reference_loop_body data tables nc shape_dmats mapping_code vars r = (\<lambda>(derivatives, state).
     let state' = compute_dmats (length (dmats data)) shape_dmats tables vars r state
     in (mapping_code vars r
           (reference_value_lines data nc shape_dmats vars r (fst state') derivatives),
         state'))"

text \<open>
  \<^verbatim>\<open>_compute_reference_derivatives\<close>. The array \<^verbatim>\<open>derivatives\<close> is new and set to zero, both
  matrices are declared as the identity, and the loop runs over all combinations. The
  tables are those of \<^verbatim>\<open>_tabulate_dmats\<close>, which the text names by their direction.
\<close>

definition compute_reference_derivatives ::
    "element_data \<Rightarrow> ndarray list \<Rightarrow> error + (variables \<Rightarrow> array)" where
  "compute_reference_derivatives data tables =
     (case num_components data of
        Inl e \<Rightarrow> Inl e
      | Inr nc \<Rightarrow>
        (case dmats data of
           [] \<Rightarrow> Inl Index_error
         | dmat0 # _ \<Rightarrow>
           (case mapping_lines data nc of
              Inl e \<Rightarrow> Inl e
            | Inr mapping_code \<Rightarrow>
              Inr (\<lambda>vars.
                let shape_dmats = shape dmat0;
                    num_vals = (if nc = 1 then num_derivatives vars
                                else nc * num_derivatives vars);
                    derivatives = fold (\<lambda>r derivatives. derivatives(r := 0)) [0..<num_vals]
                                    (\<lambda>r. 0);
                    eye = entry (numpy_eye (fst shape_dmats))
                in fst (fold (reference_loop_body data tables nc shape_dmats mapping_code vars)
                          [0..<num_derivatives vars] (derivatives, eye, eye))))))"

subsection \<open>Derivatives on the physical element\<close>

text \<open>
  \<^verbatim>\<open>_transform_derivatives\<close>: in the loops over \<open>r\<close> and \<open>s\<close>, for each component \<open>i\<close> the
  product of the transformation matrix at \<open>[r][s]\<close> and the reference value of
  combination \<open>s\<close> is added to \<^verbatim>\<open>values\<close> at component \<open>sum_value_dim + i\<close>,
  combination \<open>r\<close>.
\<close>

definition transform_derivatives ::
    "element_data \<Rightarrow> nat \<Rightarrow> error + (variables \<Rightarrow> array \<Rightarrow> array \<Rightarrow> array)" where
  "transform_derivatives data sum_value_dim =
     (case num_components data of
        Inl e \<Rightarrow> Inl e
      | Inr nc \<Rightarrow>
        Inr (\<lambda>vars derivatives.
          fold (\<lambda>r. fold (\<lambda>s. fold (\<lambda>i values.
                    values((sum_value_dim + i) * num_derivatives vars + r :=
                      values ((sum_value_dim + i) * num_derivatives vars + r)
                      + transform_matrix vars (r, s)
                        * derivatives (i * num_derivatives vars + s)))
                  [0..<nc])
                [0..<num_derivatives vars])
              [0..<num_derivatives vars]))"

text \<open>
  \<^verbatim>\<open>_generate_element_code\<close>: tables, reference derivatives, physical derivatives. The
  texts of \<^verbatim>\<open>_compute_basisvalues\<close> and \<^verbatim>\<open>_tabulate_coefficients\<close> set what \<open>variables\<close> and
  \<open>tabulate_coefficients\<close> hold, and \<^verbatim>\<open>_delete_pointers\<close> frees arrays.
\<close>

definition generate_element_code :: "element_data \<Rightarrow> nat \<Rightarrow> error + element_code" where
  "generate_element_code data sum_value_dim =
     (case tabulate_dmats data of
        Inl e \<Rightarrow> Inl e
      | Inr tables \<Rightarrow>
        (case compute_reference_derivatives data tables of
           Inl e \<Rightarrow> Inl e
         | Inr reference_code \<Rightarrow>
           (case transform_derivatives data sum_value_dim of
              Inl e \<Rightarrow> Inl e
            | Inr transform_code \<Rightarrow>
              Inr (\<lambda>vars values. transform_code vars (reference_code vars) values))))"

subsection \<open>Mixed elements and the two procedures\<close>

text \<open>
  Modelled from the spec: \<^verbatim>\<open>_map_dof\<close> and \<^verbatim>\<open>format["dof map if"]\<close> are missing from the
  sources. The local dof is the global dof minus the dof offset, and the test of a
  sub-element holds for the global dofs from its dof offset up to the last dof that
  \<^verbatim>\<open>_mixed_elements\<close> passes, both included.
\<close>

definition map_dof :: "nat \<Rightarrow> variables \<Rightarrow> variables" where
  "map_dof sum_space_dim vars = vars\<lparr>local_dof := basis_num vars - sum_space_dim\<rparr>"

definition dof_map_if :: "int \<Rightarrow> int \<Rightarrow> variables \<Rightarrow> bool" where
  "dof_map_if first_dof last_dof vars \<longleftrightarrow>
     first_dof \<le> int (basis_num vars) \<and> int (basis_num vars) \<le> last_dof"

text \<open>
  \<^verbatim>\<open>_mixed_elements\<close>: the loop over the elements with its two sums. The code of each
  element is generated first, then put under the test of its range of dofs.
\<close>

fun mixed_elements_loop :: "element_data list \<Rightarrow> nat \<Rightarrow> nat \<Rightarrow> error + element_code" where
  "mixed_elements_loop [] sum_value_dim sum_space_dim = Inr (\<lambda>vars values. values)"
| "mixed_elements_loop (data # data_list) sum_value_dim sum_space_dim =
     (let value_dim = value_dim_of data;
          space_dim = space_dimension data
      in case generate_element_code data sum_value_dim of
           Inl e \<Rightarrow> Inl e
         | Inr code \<Rightarrow>
           (case mixed_elements_loop data_list (sum_value_dim + value_dim)
                                     (sum_space_dim + space_dim) of
              Inl e \<Rightarrow> Inl e
            | Inr rest \<Rightarrow>
              Inr (\<lambda>vars values. rest vars
                    (if dof_map_if (int sum_space_dim)
                          (int sum_space_dim + int space_dim - 1) vars
                     then code (map_dof sum_space_dim vars) values
                     else values))))"

definition mixed_elements :: "element_data list \<Rightarrow> error + element_code" where
  "mixed_elements data_list = mixed_elements_loop data_list 0 0"

text \<open>
  \<^verbatim>\<open>_evaluate_basis_derivatives\<close>, the procedure for one dof. The argument of the generator
  is a list of elements or a string; for a string the body of the procedure is an
  exception. \<^verbatim>\<open>remove_unused\<close> drops declarations that nothing reads.
\<close>

definition evaluate_basis_derivatives ::
    "string + element_data list \<Rightarrow> error + element_code" where
  "evaluate_basis_derivatives data_list =
     (case data_list of
        Inl msg \<Rightarrow> Inl (Exception_msg (''evaluate_basis_derivatives: '' @ msg))
      | Inr [] \<Rightarrow> Inl Index_error
      | Inr (data0 # data_rest) \<Rightarrow>
        (case generate_transform (cell_domain data0) of
           Inl e \<Rightarrow> Inl e
         | Inr transform_code \<Rightarrow>
           (case (if length (data0 # data_rest) = 1
                  then (case generate_element_code data0 0 of
                          Inl e \<Rightarrow> Inl e
                        | Inr code \<Rightarrow> Inr (\<lambda>vars values. code (map_dof 0 vars) values))
                  else mixed_elements (data0 # data_rest)) of
              Inl e \<Rightarrow> Inl e
            | Inr code \<Rightarrow>
              Inr (\<lambda>vars values.
                let vars = vars\<lparr>num_derivatives :=
                      compute_num_derivatives (topological_dimension data0)
                        (derivative_order vars)\<rparr>;
                    vars = vars\<lparr>derivative_combinations :=
                      generate_combinations (topological_dimension data0)
                        (num_derivatives vars) (derivative_order vars)\<rparr>;
                    vars = vars\<lparr>transform_matrix := transform_code vars\<rparr>
                in code vars (reset_values (data0 # data_rest) vars values)))))"

text \<open>
  \<^verbatim>\<open>_evaluate_basis_derivatives_all\<close>, the procedure for all dofs. \<^verbatim>\<open>call basis_derivatives\<close>
  calls the procedure for one dof, so there is no procedure for all dofs where there is
  none for one. For every dof \<open>r\<close> the helper array \<^verbatim>\<open>dof_values\<close> is filled by that call and
  copied to \<^verbatim>\<open>values\<close> from index \<open>r * num_vals\<close> on. If the space dimension is one, the
  call for dof 0 writes to \<^verbatim>\<open>values\<close> itself.
\<close>

definition evaluate_basis_derivatives_all ::
    "string + element_data list \<Rightarrow> error + element_code" where
  "evaluate_basis_derivatives_all data_list =
     (case data_list of
        Inl msg \<Rightarrow> Inl (Exception_msg (''evaluate_basis_derivatives_all: '' @ msg))
      | Inr elements \<Rightarrow>
        (case evaluate_basis_derivatives data_list of
           Inl e \<Rightarrow> Inl e
         | Inr call_basis_derivatives \<Rightarrow>
           (let value_shape = total_value_shape elements;
                space_dimension = total_space_dimension elements
            in if space_dimension = 1
               then Inr (\<lambda>vars values. call_basis_derivatives (vars\<lparr>basis_num := 0\<rparr>) values)
               else (case elements of
                  [] \<Rightarrow> Inl Index_error
                | data0 # _ \<Rightarrow>
                  Inr (\<lambda>vars values.
                    let n_derivs = compute_num_derivatives (topological_dimension data0)
                                     (derivative_order vars);
                        num_vals = (if value_shape = 1 then n_derivs
                                    else value_shape * n_derivs);
                        dof_values = fold (\<lambda>r dof_values. dof_values(r := 0)) [0..<num_vals]
                                       (\<lambda>r. 0)
                    in snd (fold (\<lambda>r (dof_values, values).
                              let dof_values = call_basis_derivatives (vars\<lparr>basis_num := r\<rparr>)
                                                 dof_values
                              in (dof_values,
                                  fold (\<lambda>s values. values(r * num_vals + s := dof_values s))
                                    [0..<num_vals] values))
                            [0..<space_dimension] (dof_values, values)))))))"

subsection \<open>The mathematical objects of the specification\<close>

text \<open>
  The product of two square matrices of size \<open>m\<close>, and the chain of differentiation
  matrices of a combination: starting from the identity, each digit in turn multiplies
  the accumulator from the left by the matrix that the digit selects, so the matrix of
  the last digit is the leftmost factor.
\<close>

definition mat_mul :: "nat \<Rightarrow> matrix \<Rightarrow> matrix \<Rightarrow> matrix" where
  "mat_mul m A B = (\<lambda>(t, u). \<Sum>s<m. A (t, s) * B (s, u))"

definition mat_identity :: matrix where
  "mat_identity = (\<lambda>(t, u). if t = u then 1 else 0)"

definition spec_chain :: "nat \<Rightarrow> (nat \<Rightarrow> matrix) \<Rightarrow> nat list \<Rightarrow> matrix" where
  "spec_chain m select digits = foldl (\<lambda>M c. mat_mul m (select c) M) mat_identity digits"

text \<open>
  The reference value of the specification for a component and a dof: the double sum of
  coefficient, operator and basis value.
\<close>

definition spec_reference_value :: "nat \<Rightarrow> matrix \<Rightarrow> nat \<Rightarrow> matrix \<Rightarrow> array \<Rightarrow> real" where
  "spec_reference_value m coefficient dof M basis =
     (\<Sum>s<m. \<Sum>t<m. coefficient (dof, s) * M (s, t) * basis t)"

text \<open>
  The component mixing of the specification, on the reference values of one combination:
  nothing for an affine element, the Jacobian over its determinant for a contravariant
  Piola element, the transposed inverse Jacobian for a covariant one.
\<close>

definition spec_mapped_value :: "element_data \<Rightarrow> variables \<Rightarrow> (nat \<Rightarrow> real) \<Rightarrow> nat \<Rightarrow> real" where
  "spec_mapped_value data vars reference i =
     (if mapping data = ''affine'' then reference i
      else if mapping data = ''contravariant piola''
        then (1 / det_jacobian vars)
               * (\<Sum>j<topological_dimension data. jacobian vars (i, j) * reference j)
      else (\<Sum>j<topological_dimension data. jacobian_inverse vars (j, i) * reference j))"

text \<open>
  The reference value of component \<open>c\<close> and combination \<open>r\<close> that the procedure is to
  compute. The direction matrices are given by \<open>select\<close>.
\<close>

definition reference_value ::
    "element_data \<Rightarrow> (nat \<Rightarrow> matrix) \<Rightarrow> variables \<Rightarrow> nat \<Rightarrow> nat \<Rightarrow> real" where
  "reference_value data select vars c r =
     spec_reference_value (num_expansion_members data) (entry (coefficients data ! c))
       (local_dof vars)
       (spec_chain (num_expansion_members data) select
          (map (\<lambda>s. derivative_combinations vars ! r ! s) [0..<derivative_order vars]))
       (basisvalues vars data)"

text \<open>
  The tables of \<^verbatim>\<open>_tabulate_dmats\<close> as a function of the direction, and the physical value of
  component \<open>c\<close> and combination \<open>r\<close>: the row \<open>r\<close> of the transformation matrix times the
  mapped reference values of the component.
\<close>

definition dmats_tables :: "element_data \<Rightarrow> nat \<Rightarrow> matrix" where
  "dmats_tables data c = entry (map numpy_transpose (dmats data) ! c)"

definition physical_value :: "element_data \<Rightarrow> variables \<Rightarrow> nat \<Rightarrow> nat \<Rightarrow> real" where
  "physical_value data vars c r =
     (\<Sum>r'<num_derivatives vars. transform_matrix vars (r, r')
        * spec_mapped_value data vars
            (\<lambda>k. reference_value data (dmats_tables data) vars k r') c)"

text \<open>
  The variables after the first part of the procedure for one dof: the number of
  derivatives, the combinations and the transformation matrix are set.
\<close>

definition prepared :: "nat \<Rightarrow> variables \<Rightarrow> variables" where
  "prepared d vars =
     (let vars = vars\<lparr>num_derivatives := compute_num_derivatives d (derivative_order vars)\<rparr>;
          vars = vars\<lparr>derivative_combinations :=
                   generate_combinations d (num_derivatives vars) (derivative_order vars)\<rparr>
      in vars\<lparr>transform_matrix := transform_snippet vars\<rparr>)"

text \<open>The offsets of sub-element \<open>j\<close> of a mixed element: the sums over the elements before it.\<close>

definition dof_offset :: "element_data list \<Rightarrow> nat \<Rightarrow> nat" where
  "dof_offset data_list j = sum_list (map space_dimension (take j data_list))"

definition value_offset :: "element_data list \<Rightarrow> nat \<Rightarrow> nat" where
  "value_offset data_list j = sum_list (map value_dim_of (take j data_list))"

text \<open>The plain value of a basis function: the row of coefficients times the basis.\<close>

definition plain_basis_value :: "element_data \<Rightarrow> variables \<Rightarrow> nat \<Rightarrow> nat \<Rightarrow> real" where
  "plain_basis_value data vars c dof =
     (\<Sum>s<num_expansion_members data.
        entry (coefficients data ! c) (dof, s) * basisvalues vars data s)"

subsection \<open>Elements for the examples\<close>

text \<open>
  The element of the end-to-end example of the specification: degree one on an interval,
  two members of the expansion basis, one differentiation matrix \<open>[[0, 0], [3, 0]]\<close>. The
  coefficients are the identity. The number of dofs is a parameter, so that the element
  can stand for the sub-elements of a mixed element.
\<close>

definition example_dmat :: ndarray where
  "example_dmat = \<lparr>shape = (2, 2), entry = (\<lambda>(i, j). if i = 1 \<and> j = 0 then 3 else 0)\<rparr>"

definition example_coefficients :: ndarray where
  "example_coefficients = \<lparr>shape = (2, 2), entry = (\<lambda>(i, j). if i = j then 1 else 0)\<rparr>"

definition example_element :: "nat \<Rightarrow> element_data" where
  "example_element dofs =
     \<lparr>family = ''Lagrange'', cell_domain = ''interval'', mapping = ''affine'',
      value_shape = [], space_dimension = dofs, topological_dimension = 1,
      geometric_dimension = 1, num_expansion_members = 2, dmats = [example_dmat],
      coefficients = [example_coefficients]\<rparr>"

text \<open>
  Variables for the examples: the dof and the order are parameters, the Jacobian is 2
  and the expansion basis has the values 1 and 2 at the point.
\<close>

definition example_variables :: "nat \<Rightarrow> nat \<Rightarrow> variables" where
  "example_variables dof_index order =
     \<lparr>basis_num = dof_index, derivative_order = order, jacobian = (\<lambda>ij. 2),
      jacobian_inverse = (\<lambda>ij. 1 / 2), det_jacobian = 2,
      basisvalues = (\<lambda>data t. if t = 0 then 1 else 2), num_derivatives = 0,
      derivative_combinations = [], transform_matrix = (\<lambda>rs. 0), local_dof = 0\<rparr>"

text \<open>The same element with one vector component and the covariant Piola mapping.\<close>

definition example_piola :: element_data where
  "example_piola = (example_element 2)\<lparr>mapping := ''covariant piola'', value_shape := [1]\<rparr>"

text \<open>
  The mixed element of the routing example of the specification: three sub-elements
  with 3, 4 and 2 dofs.
\<close>

definition example_mixed :: "element_data list" where
  "example_mixed = [example_element 3, example_element 4, example_element 2]"

text \<open>The example element with a value shape of two entries.\<close>

definition example_tensor :: element_data where
  "example_tensor = (example_element 2)\<lparr>value_shape := [2, 2]\<rparr>"

text \<open>
  A constant element on an interval: one dof, one member of the expansion basis, and a
  differentiation matrix that is zero.
\<close>

definition example_constant :: element_data where
  "example_constant =
     \<lparr>family = ''Discontinuous Lagrange'', cell_domain = ''interval'', mapping = ''affine'',
      value_shape = [], space_dimension = 1, topological_dimension = 1,
      geometric_dimension = 1, num_expansion_members = 1,
      dmats = [\<lparr>shape = (1, 1), entry = (\<lambda>ij. 0)\<rparr>],
      coefficients = [\<lparr>shape = (1, 1), entry = (\<lambda>ij. 1)\<rparr>]\<rparr>"

subsection \<open>Facts about the count and the table\<close>

lemma compute_num_derivatives_power:
  "compute_num_derivatives d n = d ^ n"
  by (induction n) (simp_all add: compute_num_derivatives_def)

lemma generate_combinations_rows:
  "generate_combinations d N n = map (digit_row d n) [0..<N]"
  by (simp add: generate_combinations_def combinations_snippet_def digit_row_def)

lemma digit_row_Suc:
  "digit_row d (Suc n) r = ((r div d ^ n) mod d) # digit_row d n r"
proof -
  have "[0..<Suc n] = 0 # map Suc [0..<n]"
    by (simp add: upt_conv_Cons map_Suc_upt del: upt_Suc)
  then show ?thesis
    by (simp add: digit_row_def comp_def del: upt_Suc)
qed

lemma foldl_base_shift:
  fixes d a :: nat
  shows "foldl (\<lambda>a c. a * d + c) a cs = a * d ^ length cs + foldl (\<lambda>a c. a * d + c) 0 cs"
proof (induction cs arbitrary: a)
  case Nil
  then show ?case by simp
next
  case (Cons c cs)
  have "foldl (\<lambda>a c. a * d + c) (a * d + c) cs
      = (a * d + c) * d ^ length cs + foldl (\<lambda>a c. a * d + c) 0 cs"
    by (rule Cons.IH)
  moreover have "foldl (\<lambda>a c. a * d + c) c cs
      = c * d ^ length cs + foldl (\<lambda>a c. a * d + c) 0 cs"
    by (rule Cons.IH)
  ultimately show ?case
    by (simp add: algebra_simps)
qed

lemma length_digit_row: "length (digit_row d n r) = n"
  by (simp add: digit_row_def)

lemma base_value_digit_row: "base_value d (digit_row d n r) = r mod d ^ n"
proof (induction n)
  case 0
  then show ?case by (simp add: base_value_def digit_row_def)
next
  case (Suc n)
  have "base_value d (digit_row d (Suc n) r)
      = (r div d ^ n mod d) * d ^ n + base_value d (digit_row d n r)"
    unfolding base_value_def digit_row_Suc
    using foldl_base_shift [of d "r div d ^ n mod d" "digit_row d n r"]
    by (simp add: length_digit_row)
  also have "\<dots> = (r div d ^ n mod d) * d ^ n + r mod d ^ n"
    by (simp add: Suc.IH)
  also have "\<dots> = r mod (d ^ n * d)"
    using mod_mult2_eq [of r "d ^ n" d] by (simp add: mult.commute)
  also have "\<dots> = r mod d ^ Suc n"
    by (simp add: mult.commute)
  finally show ?case .
qed

lemma digit_row_bound: "0 < d \<Longrightarrow> c \<in> set (digit_row d n r) \<Longrightarrow> c < d"
  by (auto simp: digit_row_def)

lemma digit_row_inj:
  assumes "r < d ^ n" "r' < d ^ n" "digit_row d n r = digit_row d n r'"
  shows "r = r'"
proof -
  have "r mod d ^ n = r' mod d ^ n"
    using assms(3) base_value_digit_row [of d n r] base_value_digit_row [of d n r'] by simp
  with assms(1,2) show ?thesis by simp
qed

lemma distinct_generate_combinations:
  "distinct (generate_combinations d (d ^ n) n)"
  unfolding generate_combinations_rows distinct_map
  by (auto simp: inj_on_def dest: digit_row_inj)

lemma set_generate_combinations:
  assumes "0 < d"
  shows "set (generate_combinations d (d ^ n) n) = {cs. set cs \<subseteq> {..<d} \<and> length cs = n}"
proof (rule card_subset_eq)
  show "finite {cs. set cs \<subseteq> {..<d} \<and> length cs = n}"
    by (rule finite_lists_length_eq) simp
  show "set (generate_combinations d (d ^ n) n) \<subseteq> {cs. set cs \<subseteq> {..<d} \<and> length cs = n}"
    using assms by (auto simp: generate_combinations_rows length_digit_row dest: digit_row_bound)
  have "card (set (generate_combinations d (d ^ n) n)) = d ^ n"
    using distinct_card [OF distinct_generate_combinations, of d n]
    by (simp add: generate_combinations_rows)
  moreover have "card {cs. set cs \<subseteq> {..<d} \<and> length cs = n} = d ^ n"
    using card_lists_length_eq [of "{..<d}" n] by simp
  ultimately show "card (set (generate_combinations d (d ^ n) n))
      = card {cs. set cs \<subseteq> {..<d} \<and> length cs = n}"
    by simp
qed

subsection \<open>Facts about the loops\<close>

lemma fold_additive:
  fixes step :: "nat \<Rightarrow> ('c \<Rightarrow> real) \<Rightarrow> ('c \<Rightarrow> real)"
  assumes "\<And>k V. step k V = (\<lambda>c. V c + h k c)"
  shows "fold step [0..<n] V = (\<lambda>c. V c + (\<Sum>k<n. h k c))"
proof (induction n)
  case 0
  then show ?case by simp
next
  case (Suc n)
  then show ?case by (simp add: assms fun_eq_iff)
qed

lemma update_additive:
  fixes V :: "'c \<Rightarrow> real"
  shows "V(p := V p + g) = (\<lambda>c. V c + (if c = p then g else 0))"
  by (simp add: fun_eq_iff)

lemma fold_reset:
  fixes V :: "nat \<Rightarrow> real"
  shows "fold (\<lambda>r V. V(r := 0)) [0..<n] V = (\<lambda>c. if c < n then 0 else V c)"
  by (induction n) (auto simp: fun_eq_iff)

lemma reset_dmats_row:
  "fold (\<lambda>u D. let D' = D((t, u) := 0) in if t = u then D'((t, u) := 1) else D') [0..<k] D
     = (\<lambda>c. if fst c = t \<and> snd c < k then (if fst c = snd c then 1 else 0) else (D c :: real))"
  by (induction k) (auto simp: fun_eq_iff Let_def)

lemma reset_dmats_closed:
  "reset_dmats (m0, m1) D
     = (\<lambda>c. if fst c < m0 \<and> snd c < m1 then (if fst c = snd c then 1 else 0) else D c)"
  unfolding reset_dmats_def fst_conv snd_conv reset_dmats_row
  by (induction m0) (auto simp: fun_eq_iff)

lemma update_dmats_row:
  "fold (\<lambda>u (D, D_old). (D((t, u) := 0), D_old((t, u) := D (t, u)))) [0..<k] (D, D_old)
     = ((\<lambda>c. if fst c = t \<and> snd c < k then 0 else (D c :: real)),
        (\<lambda>c. if fst c = t \<and> snd c < k then D c else (D_old c :: real)))"
  by (induction k) (auto simp: fun_eq_iff)

lemma update_dmats_closed:
  "update_dmats (m0, m1) (D, D_old)
     = ((\<lambda>c. if fst c < m0 \<and> snd c < m1 then 0 else D c),
        (\<lambda>c. if fst c < m0 \<and> snd c < m1 then D c else D_old c))"
  unfolding update_dmats_def fst_conv snd_conv
proof (induction m0)
  case 0
  then show ?case by simp
next
  case (Suc m0)
  let ?row = "\<lambda>t. fold (\<lambda>u (D, D_old). (D((t, u) := 0), D_old((t, u) := (D (t, u) :: real))))
                [0..<m1]"
  have "fold ?row [0..<Suc m0] (D, D_old) = ?row m0 (fold ?row [0..<m0] (D, D_old))"
    by simp
  also have "\<dots> = ?row m0 ((\<lambda>c. if fst c < m0 \<and> snd c < m1 then 0 else D c),
        (\<lambda>c. if fst c < m0 \<and> snd c < m1 then D c else D_old c))"
    by (simp only: Suc.IH)
  also have "\<dots> = ((\<lambda>c. if fst c < Suc m0 \<and> snd c < m1 then 0 else D c),
        (\<lambda>c. if fst c < Suc m0 \<and> snd c < m1 then D c else D_old c))"
    unfolding update_dmats_row by (auto simp: fun_eq_iff less_Suc_eq)
  finally show ?case .
qed

lemma sum_if_const:
  fixes g :: "nat \<Rightarrow> real"
  shows "(\<Sum>k\<in>S. if P then g k else 0) = (if P then sum g S else 0)"
  by simp

lemma sum_if_pair:
  fixes f :: "nat \<Rightarrow> nat \<Rightarrow> real"
  shows "(\<Sum>t<m0. \<Sum>u<m1. if c = (t, u) then f t u else 0)
      = (if fst c < m0 \<and> snd c < m1 then f (fst c) (snd c) else 0)"
proof -
  obtain a b where c: "c = (a, b)" by (cases c)
  have "(\<Sum>u<m1. if c = (t, u) then f t u else 0) = (if t = a then (if b < m1 then f a b else 0) else 0)"
    for t
  proof (cases "t = a")
    case True
    have "(\<Sum>u<m1. if c = (t, u) then f t u else 0) = (\<Sum>u<m1. if b = u then f a u else 0)"
      by (simp add: c True)
    then show ?thesis by (simp add: True)
  next
    case False
    then show ?thesis by (auto simp: c)
  qed
  then have "(\<Sum>t<m0. \<Sum>u<m1. if c = (t, u) then f t u else 0)
      = (\<Sum>t<m0. if t = a then (if b < m1 then f a b else 0) else 0)"
    by simp
  also have "\<dots> = (if a < m0 \<and> b < m1 then f a b else 0)"
    by simp
  finally show ?thesis by (simp add: c)
qed

lemma dmats_product_closed:
  "dmats_product (m0, m1) index i tables (D, D_old) =
     (if index = i
      then ((\<lambda>c. D c + (if fst c < m0 \<and> snd c < m1
                then (\<Sum>tu<m0. entry (tables ! i) (fst c, tu) * D_old (tu, snd c)) else 0)), D_old)
      else (D, D_old))"
proof -
  let ?T = "entry (tables ! i)"
  have inner: "\<And>t u D. fold (\<lambda>tu D. D((t, u) := D (t, u) + ?T (t, tu) * D_old (tu, u))) [0..<m0] D
      = (\<lambda>c. D c + (\<Sum>tu<m0. if c = (t, u) then ?T (t, tu) * D_old (tu, u) else 0))"
    by (rule fold_additive) (simp add: fun_eq_iff)
  have mid: "\<And>t D. fold (\<lambda>u. fold (\<lambda>tu D. D((t, u) := D (t, u) + ?T (t, tu) * D_old (tu, u)))
                [0..<m0]) [0..<m1] D
      = (\<lambda>c. D c + (\<Sum>u<m1. \<Sum>tu<m0. if c = (t, u) then ?T (t, tu) * D_old (tu, u) else 0))"
    by (rule fold_additive) (simp add: inner)
  have outer: "fold (\<lambda>t. fold (\<lambda>u. fold (\<lambda>tu D. D((t, u) := D (t, u) + ?T (t, tu) * D_old (tu, u)))
                [0..<m0]) [0..<m1]) [0..<m0] D
      = (\<lambda>c. D c + (\<Sum>t<m0. \<Sum>u<m1. \<Sum>tu<m0.
                        if c = (t, u) then ?T (t, tu) * D_old (tu, u) else 0))"
    by (rule fold_additive) (simp add: mid)
  have collapse: "(\<Sum>t<m0. \<Sum>u<m1. \<Sum>tu<m0. if c = (t, u) then ?T (t, tu) * D_old (tu, u) else 0)
      = (if fst c < m0 \<and> snd c < m1 then (\<Sum>tu<m0. ?T (fst c, tu) * D_old (tu, snd c)) else 0)"
    for c
    unfolding sum_if_const by (rule sum_if_pair)
  show ?thesis
    by (simp add: dmats_product_def outer collapse)
qed

lemma dmats_product_other:
  "c \<noteq> i \<Longrightarrow> dmats_product sh c i tables st = st"
  by (cases st) (simp add: dmats_product_def)

lemma product_select:
  "fold (\<lambda>i. dmats_product sh c i tables) [0..<nd] st
     = (if c < nd then dmats_product sh c c tables st else st)"
proof (induction nd)
  case 0
  then show ?case by simp
next
  case (Suc nd)
  consider "c < nd" | "c = nd" | "nd < c" by linarith
  then show ?case
  proof cases
    case 1
    with Suc.IH show ?thesis by (simp add: dmats_product_other)
  next
    case 2
    with Suc.IH show ?thesis by simp
  next
    case 3
    with Suc.IH show ?thesis by (simp add: dmats_product_other)
  qed
qed

lemma mat_mul_cong:
  assumes "\<And>s. s < m \<Longrightarrow> B (s, u) = B' (s, u)"
  shows "mat_mul m A B (t, u) = mat_mul m A B' (t, u)"
  using assms by (simp add: mat_mul_def)

lemma chain_step:
  assumes "c < nd" and "t < m" and "u < m"
  shows "fst (fold (\<lambda>i. dmats_product (m, m) c i tables) [0..<nd] (update_dmats (m, m) st)) (t, u)
     = mat_mul m (entry (tables ! c)) (fst st) (t, u)"
proof -
  obtain D D_old where st: "st = (D, D_old)" by (cases st)
  show ?thesis
    using assms
    by (simp add: product_select st update_dmats_closed dmats_product_closed mat_mul_def)
qed

lemma compute_dmats_chain:
  assumes digits: "\<And>s. s < derivative_order vars \<Longrightarrow> derivative_combinations vars ! r ! s < nd"
    and "t < m" and "u < m"
  shows "fst (compute_dmats nd (m, m) tables vars r state) (t, u)
     = spec_chain m (\<lambda>c. entry (tables ! c))
         (map (\<lambda>s. derivative_combinations vars ! r ! s) [0..<derivative_order vars]) (t, u)"
proof -
  obtain D D_old where state: "state = (D, D_old)" by (cases state)
  let ?cs = "\<lambda>s. derivative_combinations vars ! r ! s"
  let ?step = "\<lambda>s st. fold (\<lambda>i. dmats_product (m, m) (?cs s) i tables) [0..<nd]
                          (update_dmats (m, m) st)"
  have inv: "k \<le> derivative_order vars \<Longrightarrow> t < m \<Longrightarrow> u < m \<Longrightarrow>
      fst (fold ?step [0..<k] (reset_dmats (m, m) D, D_old)) (t, u)
        = spec_chain m (\<lambda>c. entry (tables ! c)) (map ?cs [0..<k]) (t, u)" for k t u
  proof (induction k arbitrary: t u)
    case 0
    then show ?case
      by (simp add: reset_dmats_closed spec_chain_def mat_identity_def)
  next
    case (Suc k)
    have c: "?cs k < nd" using Suc.prems(1) digits by simp
    have "fst (fold ?step [0..<Suc k] (reset_dmats (m, m) D, D_old)) (t, u)
        = mat_mul m (entry (tables ! ?cs k))
            (fst (fold ?step [0..<k] (reset_dmats (m, m) D, D_old))) (t, u)"
      using chain_step [OF c Suc.prems(2,3)] by simp
    also have "\<dots> = mat_mul m (entry (tables ! ?cs k))
            (spec_chain m (\<lambda>c. entry (tables ! c)) (map ?cs [0..<k])) (t, u)"
      using Suc.IH Suc.prems by (intro mat_mul_cong) simp
    also have "\<dots> = spec_chain m (\<lambda>c. entry (tables ! c)) (map ?cs [0..<Suc k]) (t, u)"
      by (simp add: spec_chain_def)
    finally show ?case .
  qed
  show ?thesis
    using inv [of "derivative_order vars" t u] assms(2,3)
    by (simp add: compute_dmats_def state)
qed

lemma cell_eq:
  fixes N :: nat
  assumes "r < N" "r' < N"
  shows "j * N + r' = i * N + r \<longleftrightarrow> j = i \<and> r' = r"
proof
  assume eq: "j * N + r' = i * N + r"
  have "(j * N + r') div N = j" "(j * N + r') mod N = r'"
       "(i * N + r) div N = i" "(i * N + r) mod N = r"
    using assms by simp_all
  with eq show "j = i \<and> r' = r" by metis
qed simp

lemma fold_assign_hit:
  assumes "inj_on P {..<n}" "i < n"
  shows "fold (\<lambda>i V. V(P i := G i)) [0..<n] V (P i) = (G i :: real)"
  using assms
proof (induction n)
  case 0
  then show ?case by simp
next
  case (Suc n)
  have inj: "inj_on P {..<n}"
    using Suc.prems(1) by (rule inj_on_subset) auto
  show ?case
  proof (cases "i = n")
    case True
    then show ?thesis by simp
  next
    case False
    then have i: "i < n" using Suc.prems(2) by simp
    have "P i \<noteq> P n"
      using Suc.prems(1) i by (auto simp: inj_on_def)
    then show ?thesis
      using Suc.IH [OF inj i] by simp
  qed
qed

lemma fold_assign_miss:
  assumes "\<And>i. i < n \<Longrightarrow> P i \<noteq> c"
  shows "fold (\<lambda>i V. V(P i := G i)) [0..<n] V c = (V c :: real)"
  using assms by (induction n) auto

lemma reference_value_lines_closed:
  "reference_value_lines data nc (m0, m1) vars r D derivatives =
     (\<lambda>c. derivatives c + (\<Sum>i<nc. if c = i * num_derivatives vars + r
         then (\<Sum>s<m0. \<Sum>t<m1. entry (tabulate_coefficients data ! i) (local_dof vars, s)
                 * D (s, t) * basisvalues vars data t) else 0))"
proof -
  let ?N = "num_derivatives vars"
  let ?g = "\<lambda>s t i. entry (tabulate_coefficients data ! i) (local_dof vars, s) * D (s, t)
                 * basisvalues vars data t"
  have inner: "\<And>s t V. fold (\<lambda>i V. V(i * ?N + r := V (i * ?N + r) + ?g s t i)) [0..<nc] V
      = (\<lambda>c. V c + (\<Sum>i<nc. if c = i * ?N + r then ?g s t i else 0))"
    by (rule fold_additive) (simp add: fun_eq_iff)
  have mid: "\<And>s V. fold (\<lambda>t. fold (\<lambda>i V. V(i * ?N + r := V (i * ?N + r) + ?g s t i)) [0..<nc])
                [0..<m1] V
      = (\<lambda>c. V c + (\<Sum>t<m1. \<Sum>i<nc. if c = i * ?N + r then ?g s t i else 0))"
    by (rule fold_additive) (simp add: inner)
  have outer: "\<And>V. fold (\<lambda>s. fold (\<lambda>t. fold (\<lambda>i V. V(i * ?N + r := V (i * ?N + r) + ?g s t i))
                [0..<nc]) [0..<m1]) [0..<m0] V
      = (\<lambda>c. V c + (\<Sum>s<m0. \<Sum>t<m1. \<Sum>i<nc. if c = i * ?N + r then ?g s t i else 0))"
    by (rule fold_additive) (simp add: mid)
  have swap: "(\<Sum>s<m0. \<Sum>t<m1. \<Sum>i<nc. if c = i * ?N + r then ?g s t i else 0)
      = (\<Sum>i<nc. if c = i * ?N + r then (\<Sum>s<m0. \<Sum>t<m1. ?g s t i) else 0)" for c
  proof -
    have "(\<Sum>s<m0. \<Sum>t<m1. \<Sum>i<nc. if c = i * ?N + r then ?g s t i else 0)
        = (\<Sum>s<m0. \<Sum>i<nc. \<Sum>t<m1. if c = i * ?N + r then ?g s t i else 0)"
      by (subst sum.swap [of _ "{..<nc}"]) (rule refl)
    also have "\<dots> = (\<Sum>i<nc. \<Sum>s<m0. \<Sum>t<m1. if c = i * ?N + r then ?g s t i else 0)"
      by (rule sum.swap)
    also have "\<dots> = (\<Sum>i<nc. if c = i * ?N + r then (\<Sum>s<m0. \<Sum>t<m1. ?g s t i) else 0)"
      by (simp add: sum_if_const)
    finally show ?thesis .
  qed
  show ?thesis
    by (simp add: reference_value_lines_def outer swap)
qed

lemma sum_cells:
  fixes g :: "nat \<Rightarrow> real" and N :: nat
  assumes "r < N" "r' < N"
  shows "(\<Sum>i<nc. if j * N + r' = i * N + r then g i else 0) = (if r' = r \<and> j < nc then g j else 0)"
proof -
  have "(\<Sum>i<nc. if j * N + r' = i * N + r then g i else 0)
      = (\<Sum>i<nc. if i = j then (if r' = r then g j else 0) else 0)"
    by (intro sum.cong refl) (auto simp: cell_eq [OF assms])
  then show ?thesis by simp
qed

lemma sum_list_upt:
  fixes f :: "nat \<Rightarrow> real"
  shows "sum_list (map f [0..<d]) = (\<Sum>j<d. f j)"
  by (simp add: interv_sum_list_conv_sum_set_nat atLeast0LessThan)

lemma cell_inj:
  fixes N :: nat
  assumes "r < N"
  shows "inj_on (\<lambda>i. i * N + r) {..<nc}"
  using cell_eq [OF assms assms] by (auto simp: inj_on_def)

lemma piola_tmp_sum:
  fixes V :: array
  assumes "d \<le> nc"
  shows "sum_list (map (\<lambda>j. a j * map (\<lambda>i. V (i * N + r)) [0..<nc] ! j) [0..<d])
     = (\<Sum>j<d. a j * V (j * N + r))"
proof -
  have "(\<Sum>j<d. a j * map (\<lambda>i. V (i * N + r)) [0..<nc] ! j) = (\<Sum>j<d. a j * V (j * N + r))"
    using assms by (intro sum.cong refl) simp
  then show ?thesis by (simp add: sum_list_upt)
qed

lemma mapping_lines_other:
  assumes "mapping_lines data nc = Inr mapping_code"
    and "r < num_derivatives vars" "r' < num_derivatives vars" "r' \<noteq> r"
  shows "mapping_code vars r V (j * num_derivatives vars + r') = V (j * num_derivatives vars + r')"
proof -
  have ne: "i * num_derivatives vars + r \<noteq> j * num_derivatives vars + r'" for i
    using assms(4) cell_eq [OF assms(2,3), of j i] by metis
  have miss: "\<And>G. fold (\<lambda>i V. V(i * num_derivatives vars + r := G i)) [0..<nc] V
      (j * num_derivatives vars + r') = V (j * num_derivatives vars + r')"
    by (rule fold_assign_miss) (rule ne)
  show ?thesis
    using assms(1) miss
    by (auto simp: mapping_lines_def contravariant_piola_lines_def covariant_piola_lines_def
                   Let_def split: if_splits)
qed

lemma mapping_lines_same:
  assumes "mapping_lines data nc = Inr mapping_code"
    and "r < num_derivatives vars" "j < nc"
  shows "mapping_code vars r V (j * num_derivatives vars + r)
     = spec_mapped_value data vars (\<lambda>k. V (k * num_derivatives vars + r)) j"
proof -
  let ?N = "num_derivatives vars" and ?d = "topological_dimension data"
  have hit: "\<And>G. fold (\<lambda>i V. V(i * ?N + r := G i)) [0..<nc] V (j * ?N + r) = G j"
    using cell_inj [OF assms(2)] assms(3) by (rule fold_assign_hit)
  consider (affine) "mapping data = ''affine''" "mapping_code = (\<lambda>vars r derivatives. derivatives)"
    | (contra) "mapping data = ''contravariant piola''" "?d \<le> nc"
        "mapping_code = contravariant_piola_lines nc ?d"
    | (co) "mapping data = ''covariant piola''" "?d \<le> nc"
        "mapping_code = covariant_piola_lines nc ?d"
    using assms(1) by (auto simp: mapping_lines_def split: if_splits)
  then show ?thesis
  proof cases
    case affine
    then show ?thesis by (simp add: spec_mapped_value_def)
  next
    case contra
    have "contravariant_piola_lines nc ?d vars r V (j * ?N + r)
        = (1 / det_jacobian vars) * sum_list (map (\<lambda>k. jacobian vars (j, k)
            * map (\<lambda>i. V (i * ?N + r)) [0..<nc] ! k) [0..<?d])"
      by (simp add: contravariant_piola_lines_def Let_def hit)
    also have "\<dots> = (1 / det_jacobian vars) * (\<Sum>k<?d. jacobian vars (j, k) * V (k * ?N + r))"
      using piola_tmp_sum [where a = "\<lambda>k. jacobian vars (j, k)" and V = V and N = "?N" and r = r,
                           OF contra(2)]
      by simp
    finally show ?thesis
      by (simp add: contra spec_mapped_value_def)
  next
    case co
    have "covariant_piola_lines nc ?d vars r V (j * ?N + r)
        = sum_list (map (\<lambda>k. jacobian_inverse vars (k, j)
            * map (\<lambda>i. V (i * ?N + r)) [0..<nc] ! k) [0..<?d])"
      by (simp add: covariant_piola_lines_def Let_def hit)
    also have "\<dots> = (\<Sum>k<?d. jacobian_inverse vars (k, j) * V (k * ?N + r))"
      using piola_tmp_sum [where a = "\<lambda>k. jacobian_inverse vars (k, j)" and V = V and N = "?N"
                             and r = r, OF co(2)]
      by simp
    finally show ?thesis
      by (simp add: co spec_mapped_value_def)
  qed
qed

lemma spec_mapped_value_cong:
  assumes "mapping_lines data nc = Inr mapping_code" and "j < nc"
    and "\<And>k. k < nc \<Longrightarrow> f k = g k"
  shows "spec_mapped_value data vars f j = spec_mapped_value data vars g j"
proof -
  have d: "mapping data \<noteq> ''affine'' \<Longrightarrow> topological_dimension data \<le> nc"
    using assms(1) by (auto simp: mapping_lines_def split: if_splits)
  have "mapping data \<noteq> ''affine'' \<Longrightarrow> k < topological_dimension data \<Longrightarrow> f k = g k" for k
    using d assms(3) [of k] by simp
  then show ?thesis
    using assms(2,3) by (simp add: spec_mapped_value_def)
qed

lemma reference_loop_body_other:
  assumes "mapping_lines data nc = Inr mapping_code"
    and "r < num_derivatives vars" "r' < num_derivatives vars" "r' \<noteq> r"
  shows "fst (reference_loop_body data tables nc (m0, m1) mapping_code vars r (V, state))
           (j * num_derivatives vars + r') = V (j * num_derivatives vars + r')"
  using assms
  by (simp add: reference_loop_body_def Let_def mapping_lines_other
                reference_value_lines_closed sum_cells)

lemma reference_loop_body_same:
  assumes ml: "mapping_lines data nc = Inr mapping_code"
    and r: "r < num_derivatives vars" and j: "j < nc"
    and m: "m = num_expansion_members data"
    and digits: "\<And>s. s < derivative_order vars \<Longrightarrow>
                   derivative_combinations vars ! r ! s < length (dmats data)"
    and zero: "\<And>i. i < nc \<Longrightarrow> V (i * num_derivatives vars + r) = 0"
  shows "fst (reference_loop_body data tables nc (m, m) mapping_code vars r (V, state))
           (j * num_derivatives vars + r)
     = spec_mapped_value data vars
         (\<lambda>k. reference_value data (\<lambda>c. entry (tables ! c)) vars k r) j"
proof -
  let ?N = "num_derivatives vars"
  let ?D = "fst (compute_dmats (length (dmats data)) (m, m) tables vars r state)"
  let ?W = "reference_value_lines data nc (m, m) vars r ?D V"
  let ?chain = "spec_chain m (\<lambda>c. entry (tables ! c))
         (map (\<lambda>s. derivative_combinations vars ! r ! s) [0..<derivative_order vars])"
  have D: "?D (s, t) = ?chain (s, t)" if "s < m" "t < m" for s t
    using digits that by (rule compute_dmats_chain)
  have W: "?W (k * ?N + r) = reference_value data (\<lambda>c. entry (tables ! c)) vars k r"
    if k: "k < nc" for k
  proof -
    have "?W (k * ?N + r)
        = (\<Sum>s<m. \<Sum>t<m. entry (coefficients data ! k) (local_dof vars, s) * ?D (s, t)
                 * basisvalues vars data t)"
      using k r zero [OF k]
      by (simp add: reference_value_lines_closed sum_cells tabulate_coefficients_def)
    also have "\<dots> = (\<Sum>s<m. \<Sum>t<m. entry (coefficients data ! k) (local_dof vars, s)
                 * ?chain (s, t) * basisvalues vars data t)"
      by (intro sum.cong refl) (simp add: D)
    finally show ?thesis
      by (simp add: reference_value_def spec_reference_value_def m)
  qed
  have "fst (reference_loop_body data tables nc (m, m) mapping_code vars r (V, state))
           (j * ?N + r) = mapping_code vars r ?W (j * ?N + r)"
    by (simp add: reference_loop_body_def Let_def)
  also have "\<dots> = spec_mapped_value data vars (\<lambda>k. ?W (k * ?N + r)) j"
    using ml r j by (rule mapping_lines_same)
  also have "\<dots> = spec_mapped_value data vars
         (\<lambda>k. reference_value data (\<lambda>c. entry (tables ! c)) vars k r) j"
    using ml j W by (rule spec_mapped_value_cong)
  finally show ?thesis .
qed

lemma reference_loop:
  assumes ml: "mapping_lines data nc = Inr mapping_code"
    and m: "m = num_expansion_members data"
    and digits: "\<And>r s. r < num_derivatives vars \<Longrightarrow> s < derivative_order vars \<Longrightarrow>
                   derivative_combinations vars ! r ! s < length (dmats data)"
    and zero: "\<And>c. V c = 0"
    and k: "k \<le> num_derivatives vars" and r: "r < num_derivatives vars" and j: "j < nc"
  shows "fst (fold (reference_loop_body data tables nc (m, m) mapping_code vars) [0..<k]
                (V, state)) (j * num_derivatives vars + r)
     = (if r < k then spec_mapped_value data vars
                        (\<lambda>k. reference_value data (\<lambda>c. entry (tables ! c)) vars k r) j
        else 0)"
  using k r j
proof (induction k arbitrary: r j)
  case 0
  then show ?case by (simp add: zero)
next
  case (Suc k)
  let ?body = "reference_loop_body data tables nc (m, m) mapping_code vars"
  obtain V' state' where prev: "fold ?body [0..<k] (V, state) = (V', state')"
    by (cases "fold ?body [0..<k] (V, state)")
  have V': "V' (i * num_derivatives vars + r')
      = (if r' < k then spec_mapped_value data vars
                        (\<lambda>k. reference_value data (\<lambda>c. entry (tables ! c)) vars k r') i
         else 0)" if "r' < num_derivatives vars" "i < nc" for r' i
    using Suc.IH [of r' i] Suc.prems(1) that by (simp add: prev)
  have k: "k < num_derivatives vars" using Suc.prems(1) by simp
  show ?case
  proof (cases "r = k")
    case True
    have "fst (?body k (V', state')) (j * num_derivatives vars + k)
        = spec_mapped_value data vars
            (\<lambda>c. reference_value data (\<lambda>c. entry (tables ! c)) vars c k) j"
      using ml k Suc.prems(3) m
    proof (rule reference_loop_body_same)
      show "derivative_combinations vars ! k ! s < length (dmats data)"
        if "s < derivative_order vars" for s
        using digits [OF k that] .
      show "V' (i * num_derivatives vars + k) = 0" if "i < nc" for i
        using V' [OF k that] by simp
    qed
    then show ?thesis by (simp add: prev True)
  next
    case False
    have "fst (?body k (V', state')) (j * num_derivatives vars + r)
        = V' (j * num_derivatives vars + r)"
      using ml k Suc.prems(2) False by (rule reference_loop_body_other)
    then show ?thesis
      using V' [OF Suc.prems(2,3)] False Suc.prems(2) by (auto simp: prev less_Suc_eq)
  qed
qed

lemma tabulate_dmats_Inr:
  assumes "tabulate_dmats data = Inr tables"
  shows "tables = map numpy_transpose (dmats data)"
    and "dmat \<in> set (dmats data) \<Longrightarrow>
           shape dmat = (num_expansion_members data, num_expansion_members data)"
proof -
  show "tables = map numpy_transpose (dmats data)"
    using assms by (auto simp: tabulate_dmats_def split: if_splits)
  assume "dmat \<in> set (dmats data)"
  moreover have "list_all (\<lambda>dmat. let matrix = numpy_transpose dmat in
                      fst (shape matrix) = snd (shape matrix)
                      \<and> snd (shape matrix) = num_expansion_members data) (dmats data)"
    using assms by (auto simp: tabulate_dmats_def split: if_splits)
  ultimately show "shape dmat = (num_expansion_members data, num_expansion_members data)"
    by (auto simp: list_all_iff Let_def numpy_transpose_def prod_eq_iff)
qed

lemma compute_reference_derivatives_closed:
  assumes code: "compute_reference_derivatives data tables = Inr reference_code"
    and nc: "num_components data = Inr nc"
    and shape: "\<And>dmat. dmat \<in> set (dmats data) \<Longrightarrow>
           shape dmat = (num_expansion_members data, num_expansion_members data)"
    and digits: "\<And>r s. r < num_derivatives vars \<Longrightarrow> s < derivative_order vars \<Longrightarrow>
                   derivative_combinations vars ! r ! s < length (dmats data)"
    and r: "r < num_derivatives vars" and j: "j < nc"
  shows "reference_code vars (j * num_derivatives vars + r)
     = spec_mapped_value data vars
         (\<lambda>k. reference_value data (\<lambda>c. entry (tables ! c)) vars k r) j"
proof -
  obtain dmat0 rest where dm: "dmats data = dmat0 # rest"
    using code nc by (cases "dmats data") (simp_all add: compute_reference_derivatives_def)
  obtain mapping_code where ml: "mapping_lines data nc = Inr mapping_code"
    using code nc dm
    by (cases "mapping_lines data nc") (simp_all add: compute_reference_derivatives_def)
  let ?m = "num_expansion_members data"
  have sh: "shape dmat0 = (?m, ?m)"
    using shape [of dmat0] dm by simp
  have zero: "fold (\<lambda>r derivatives. derivatives(r := 0)) [0..<k] (\<lambda>r. 0) c = (0::real)" for k c
    by (simp add: fold_reset)
  have "reference_code vars = fst (fold (reference_loop_body data tables nc (?m, ?m) mapping_code vars)
          [0..<num_derivatives vars]
          (fold (\<lambda>r derivatives. derivatives(r := 0))
             [0..<(if nc = 1 then num_derivatives vars else nc * num_derivatives vars)] (\<lambda>r. 0),
           entry (numpy_eye ?m), entry (numpy_eye ?m)))"
    using code by (auto simp: compute_reference_derivatives_def nc dm ml sh Let_def)
  then show ?thesis
    using reference_loop [OF ml refl digits zero order_refl r j] r by simp
qed

lemma sum_cells_offset:
  fixes g :: "nat \<Rightarrow> nat \<Rightarrow> real" and N :: nat
  assumes "r < N"
  shows "(\<Sum>r'<N. \<Sum>i<nc. if (b + j) * N + r = (b + i) * N + r' then g r' i else 0)
     = (if j < nc then g r j else 0)"
proof -
  have "(\<Sum>i<nc. if (b + j) * N + r = (b + i) * N + r' then g r' i else 0)
      = (if r' = r then (if j < nc then g r j else 0) else 0)" if "r' < N" for r'
  proof -
    have "(\<Sum>i<nc. if (b + j) * N + r = (b + i) * N + r' then g r' i else 0)
        = (\<Sum>i<nc. if i = j then (if r' = r then g r j else 0) else 0)"
      using cell_eq [OF that assms, of "b + j"] by (intro sum.cong refl) auto
    then show ?thesis by simp
  qed
  then have "(\<Sum>r'<N. \<Sum>i<nc. if (b + j) * N + r = (b + i) * N + r' then g r' i else 0)
      = (\<Sum>r'<N. if r' = r then (if j < nc then g r j else 0) else 0)"
    by (intro sum.cong refl) simp
  then show ?thesis using assms by simp
qed

lemma transform_derivatives_closed:
  assumes "transform_derivatives data sum_value_dim = Inr transform_code"
    and "num_components data = Inr nc"
  shows "transform_code vars derivatives values =
     (\<lambda>c. values c + (\<Sum>r<num_derivatives vars. \<Sum>i<nc.
        if c = (sum_value_dim + i) * num_derivatives vars + r
        then (\<Sum>s<num_derivatives vars. transform_matrix vars (r, s)
                * derivatives (i * num_derivatives vars + s)) else 0))"
proof -
  let ?N = "num_derivatives vars"
  let ?g = "\<lambda>r s i. transform_matrix vars (r, s) * derivatives (i * ?N + s)"
  let ?p = "\<lambda>i r. (sum_value_dim + i) * ?N + r"
  have inner: "\<And>r s V. fold (\<lambda>i V. V(?p i r := V (?p i r) + ?g r s i)) [0..<nc] V
      = (\<lambda>c. V c + (\<Sum>i<nc. if c = ?p i r then ?g r s i else 0))"
    by (rule fold_additive) (simp add: fun_eq_iff)
  have mid: "\<And>r V. fold (\<lambda>s. fold (\<lambda>i V. V(?p i r := V (?p i r) + ?g r s i)) [0..<nc])
                [0..<?N] V
      = (\<lambda>c. V c + (\<Sum>s<?N. \<Sum>i<nc. if c = ?p i r then ?g r s i else 0))"
    by (rule fold_additive) (simp add: inner)
  have outer: "\<And>V. fold (\<lambda>r. fold (\<lambda>s. fold (\<lambda>i V. V(?p i r := V (?p i r) + ?g r s i))
                [0..<nc]) [0..<?N]) [0..<?N] V
      = (\<lambda>c. V c + (\<Sum>r<?N. \<Sum>s<?N. \<Sum>i<nc. if c = ?p i r then ?g r s i else 0))"
    by (rule fold_additive) (simp add: mid)
  have swap: "(\<Sum>s<?N. \<Sum>i<nc. if c = ?p i r then ?g r s i else 0)
      = (\<Sum>i<nc. if c = ?p i r then (\<Sum>s<?N. ?g r s i) else 0)" for c r
  proof -
    have "(\<Sum>s<?N. \<Sum>i<nc. if c = ?p i r then ?g r s i else 0)
        = (\<Sum>i<nc. \<Sum>s<?N. if c = ?p i r then ?g r s i else 0)"
      by (rule sum.swap)
    then show ?thesis by (simp add: sum_if_const)
  qed
  have "transform_code = (\<lambda>vars derivatives.
          fold (\<lambda>r. fold (\<lambda>s. fold (\<lambda>i values.
                    values((sum_value_dim + i) * num_derivatives vars + r :=
                      values ((sum_value_dim + i) * num_derivatives vars + r)
                      + transform_matrix vars (r, s)
                        * derivatives (i * num_derivatives vars + s)))
                  [0..<nc])
                [0..<num_derivatives vars])
              [0..<num_derivatives vars])"
    using assms by (simp add: transform_derivatives_def)
  then show ?thesis
    by (simp add: outer swap)
qed

lemma generate_element_code_parts:
  assumes "generate_element_code data sum_value_dim = Inr code"
  obtains tables reference_code transform_code nc where
    "tabulate_dmats data = Inr tables"
    "compute_reference_derivatives data tables = Inr reference_code"
    "transform_derivatives data sum_value_dim = Inr transform_code"
    "num_components data = Inr nc"
    "code = (\<lambda>vars values. transform_code vars (reference_code vars) values)"
proof -
  obtain tables where t: "tabulate_dmats data = Inr tables"
    using assms by (cases "tabulate_dmats data") (simp_all add: generate_element_code_def)
  obtain reference_code where r: "compute_reference_derivatives data tables = Inr reference_code"
    using assms t
    by (cases "compute_reference_derivatives data tables") (simp_all add: generate_element_code_def)
  obtain transform_code where tr: "transform_derivatives data sum_value_dim = Inr transform_code"
    using assms t r
    by (cases "transform_derivatives data sum_value_dim") (simp_all add: generate_element_code_def)
  obtain nc where nc: "num_components data = Inr nc"
    using tr by (cases "num_components data") (simp_all add: transform_derivatives_def)
  have "code = (\<lambda>vars values. transform_code vars (reference_code vars) values)"
    using assms t r tr by (simp add: generate_element_code_def)
  with t r tr nc show ?thesis by (rule that)
qed

lemma generate_element_code_additive:
  assumes "generate_element_code data sum_value_dim = Inr code"
  shows "\<exists>increment. \<forall>vars values. code vars values = (\<lambda>c. values c + increment vars c)"
proof -
  from assms obtain tables reference_code transform_code nc where
    "tabulate_dmats data = Inr tables"
    and tr: "transform_derivatives data sum_value_dim = Inr transform_code"
    and nc: "num_components data = Inr nc"
    and code: "code = (\<lambda>vars values. transform_code vars (reference_code vars) values)"
    by (rule generate_element_code_parts)
  show ?thesis
    unfolding code transform_derivatives_closed [OF tr nc] by (intro exI allI) (rule refl)
qed

lemma generate_element_code_value:
  assumes gen: "generate_element_code data sum_value_dim = Inr code"
    and nc: "num_components data = Inr nc"
    and digits: "\<And>r s. r < num_derivatives vars \<Longrightarrow> s < derivative_order vars \<Longrightarrow>
                   derivative_combinations vars ! r ! s < length (dmats data)"
    and r: "r < num_derivatives vars" and j: "j < nc"
  shows "code vars values ((sum_value_dim + j) * num_derivatives vars + r)
     = values ((sum_value_dim + j) * num_derivatives vars + r) + physical_value data vars j r"
proof -
  from gen obtain tables reference_code transform_code nc' where
    t: "tabulate_dmats data = Inr tables"
    and rc: "compute_reference_derivatives data tables = Inr reference_code"
    and tr: "transform_derivatives data sum_value_dim = Inr transform_code"
    and nc': "num_components data = Inr nc'"
    and code: "code = (\<lambda>vars values. transform_code vars (reference_code vars) values)"
    by (rule generate_element_code_parts)
  have tables: "tables = map numpy_transpose (dmats data)"
    using t by (rule tabulate_dmats_Inr)
  have ref: "reference_code vars (j * num_derivatives vars + s)
      = spec_mapped_value data vars (\<lambda>k. reference_value data (dmats_tables data) vars k s) j"
    if "s < num_derivatives vars" for s
    using compute_reference_derivatives_closed [OF rc nc tabulate_dmats_Inr(2) [OF t] digits that j]
    by (simp add: tables dmats_tables_def [abs_def])
  have "code vars values ((sum_value_dim + j) * num_derivatives vars + r)
      = values ((sum_value_dim + j) * num_derivatives vars + r)
        + (\<Sum>s<num_derivatives vars. transform_matrix vars (r, s)
                * reference_code vars (j * num_derivatives vars + s))"
    unfolding code transform_derivatives_closed [OF tr nc]
    using sum_cells_offset [OF r, where nc = nc and b = sum_value_dim and j = j] j by simp
  also have "(\<Sum>s<num_derivatives vars. transform_matrix vars (r, s)
                * reference_code vars (j * num_derivatives vars + s))
      = physical_value data vars j r"
    unfolding physical_value_def by (intro sum.cong refl) (simp add: ref)
  finally show ?thesis .
qed

lemma generate_element_code_frame:
  assumes gen: "generate_element_code data sum_value_dim = Inr code"
    and nc: "num_components data = Inr nc"
    and c: "\<And>r i. r < num_derivatives vars \<Longrightarrow> i < nc \<Longrightarrow>
              c \<noteq> (sum_value_dim + i) * num_derivatives vars + r"
  shows "code vars values c = values c"
proof -
  from gen obtain tables reference_code transform_code nc' where
    "tabulate_dmats data = Inr tables" and "num_components data = Inr nc'"
    and tr: "transform_derivatives data sum_value_dim = Inr transform_code"
    and code: "code = (\<lambda>vars values. transform_code vars (reference_code vars) values)"
    by (rule generate_element_code_parts)
  have "(\<Sum>r<num_derivatives vars. \<Sum>i<nc.
        if c = (sum_value_dim + i) * num_derivatives vars + r
        then (\<Sum>s<num_derivatives vars. transform_matrix vars (r, s)
                * reference_code vars (i * num_derivatives vars + s)) else 0) = 0"
    using c by (intro sum.neutral ballI) auto
  then show ?thesis
    unfolding code transform_derivatives_closed [OF tr nc] by simp
qed

lemma dof_map_if_range:
  "dof_map_if (int sum_space_dim) (int sum_space_dim + int space_dim - 1) vars
     \<longleftrightarrow> sum_space_dim \<le> basis_num vars \<and> basis_num vars < sum_space_dim + space_dim"
  by (auto simp: dof_map_if_def)

lemma mixed_elements_loop_Cons:
  assumes "mixed_elements_loop (data # data_list) sum_value_dim sum_space_dim = Inr code"
  obtains first_code rest where
    "generate_element_code data sum_value_dim = Inr first_code"
    "mixed_elements_loop data_list (sum_value_dim + value_dim_of data)
       (sum_space_dim + space_dimension data) = Inr rest"
    "code = (\<lambda>vars values. rest vars
       (if sum_space_dim \<le> basis_num vars
           \<and> basis_num vars < sum_space_dim + space_dimension data
        then first_code (map_dof sum_space_dim vars) values else values))"
proof -
  obtain first_code where f: "generate_element_code data sum_value_dim = Inr first_code"
    using assms by (cases "generate_element_code data sum_value_dim") (simp_all add: Let_def)
  obtain rest where r: "mixed_elements_loop data_list (sum_value_dim + value_dim_of data)
       (sum_space_dim + space_dimension data) = Inr rest"
    using assms f
    by (cases "mixed_elements_loop data_list (sum_value_dim + value_dim_of data)
                 (sum_space_dim + space_dimension data)") (simp_all add: Let_def)
  have "code = (\<lambda>vars values. rest vars
       (if sum_space_dim \<le> basis_num vars
           \<and> basis_num vars < sum_space_dim + space_dimension data
        then first_code (map_dof sum_space_dim vars) values else values))"
    using assms f r by (simp add: Let_def dof_map_if_range)
  with f r show ?thesis by (rule that)
qed

lemma mixed_elements_loop_outside:
  assumes "mixed_elements_loop data_list sum_value_dim sum_space_dim = Inr code"
    and "basis_num vars < sum_space_dim
         \<or> sum_space_dim + total_space_dimension data_list \<le> basis_num vars"
  shows "code vars values = values"
  using assms
proof (induction data_list arbitrary: sum_value_dim sum_space_dim code)
  case Nil
  then show ?case by auto
next
  case (Cons data data_list)
  from Cons.prems(1) obtain first_code rest where
    rest: "mixed_elements_loop data_list (sum_value_dim + value_dim_of data)
       (sum_space_dim + space_dimension data) = Inr rest"
    and code: "code = (\<lambda>vars values. rest vars
       (if sum_space_dim \<le> basis_num vars
           \<and> basis_num vars < sum_space_dim + space_dimension data
        then first_code (map_dof sum_space_dim vars) values else values))"
    by (rule mixed_elements_loop_Cons)
  have out: "basis_num vars < sum_space_dim + space_dimension data
         \<or> sum_space_dim + space_dimension data + total_space_dimension data_list
              \<le> basis_num vars"
    using Cons.prems(2) by (auto simp: total_space_dimension_def)
  have guard: "(sum_space_dim \<le> basis_num vars
           \<and> basis_num vars < sum_space_dim + space_dimension data) = False"
    using Cons.prems(2) by (auto simp: total_space_dimension_def)
  have "code vars values = rest vars values"
    by (simp only: code guard if_False)
  then show ?case
    using Cons.IH [OF rest out] by simp
qed

lemma mixed_elements_loop_dispatch:
  assumes "mixed_elements_loop data_list sum_value_dim sum_space_dim = Inr code"
    and "j < length data_list"
    and "sum_space_dim + dof_offset data_list j \<le> basis_num vars"
    and "basis_num vars < sum_space_dim + dof_offset data_list j + space_dimension (data_list ! j)"
  shows "\<exists>code_j. generate_element_code (data_list ! j) (sum_value_dim + value_offset data_list j)
                     = Inr code_j
           \<and> code vars values = code_j (map_dof (sum_space_dim + dof_offset data_list j) vars) values"
  using assms
proof (induction data_list arbitrary: sum_value_dim sum_space_dim code j)
  case Nil
  then show ?case by simp
next
  case (Cons data data_list)
  from Cons.prems(1) obtain first_code rest where
    first: "generate_element_code data sum_value_dim = Inr first_code"
    and rest: "mixed_elements_loop data_list (sum_value_dim + value_dim_of data)
       (sum_space_dim + space_dimension data) = Inr rest"
    and code: "code = (\<lambda>vars values. rest vars
       (if sum_space_dim \<le> basis_num vars
           \<and> basis_num vars < sum_space_dim + space_dimension data
        then first_code (map_dof sum_space_dim vars) values else values))"
    by (rule mixed_elements_loop_Cons)
  show ?case
  proof (cases j)
    case 0
    have range: "sum_space_dim \<le> basis_num vars"
        "basis_num vars < sum_space_dim + space_dimension data"
      using Cons.prems(3,4) by (simp_all add: 0 dof_offset_def)
    have "rest vars V = V" for V
      using rest range(2) by (rule mixed_elements_loop_outside [OF _ disjI1])
    then show ?thesis
      using first range by (simp add: 0 code dof_offset_def value_offset_def)
  next
    case (Suc j')
    have j': "j' < length data_list" using Cons.prems(2) Suc by simp
    have lo: "sum_space_dim + space_dimension data + dof_offset data_list j' \<le> basis_num vars"
      and hi: "basis_num vars < sum_space_dim + space_dimension data + dof_offset data_list j'
                 + space_dimension (data_list ! j')"
      using Cons.prems(3,4) by (simp_all add: Suc dof_offset_def)
    have guard: "(sum_space_dim \<le> basis_num vars
           \<and> basis_num vars < sum_space_dim + space_dimension data) = False"
      using lo by simp
    from Cons.IH [OF rest j' lo hi] obtain code_j where
      "generate_element_code (data_list ! j')
         (sum_value_dim + value_dim_of data + value_offset data_list j') = Inr code_j"
      "rest vars values
         = code_j (map_dof (sum_space_dim + space_dimension data + dof_offset data_list j') vars)
             values"
      by blast
    moreover have "code vars values = rest vars values"
      by (simp only: code guard if_False)
    ultimately show ?thesis
      by (simp add: Suc dof_offset_def value_offset_def add.assoc)
  qed
qed

lemma mixed_elements_loop_additive:
  assumes "mixed_elements_loop data_list sum_value_dim sum_space_dim = Inr code"
  shows "\<exists>increment. \<forall>vars values. code vars values = (\<lambda>c. values c + increment vars c)"
  using assms
proof (induction data_list arbitrary: sum_value_dim sum_space_dim code)
  case Nil
  then have "code = (\<lambda>vars values. values)" by auto
  then show ?case by (intro exI [of _ "\<lambda>vars c. 0"]) simp
next
  case (Cons data data_list)
  from Cons.prems(1) obtain first_code rest where
    first: "generate_element_code data sum_value_dim = Inr first_code"
    and rest: "mixed_elements_loop data_list (sum_value_dim + value_dim_of data)
       (sum_space_dim + space_dimension data) = Inr rest"
    and code: "code = (\<lambda>vars values. rest vars
       (if sum_space_dim \<le> basis_num vars
           \<and> basis_num vars < sum_space_dim + space_dimension data
        then first_code (map_dof sum_space_dim vars) values else values))"
    by (rule mixed_elements_loop_Cons)
  obtain inc1 where inc1: "\<And>vars values. first_code vars values = (\<lambda>c. values c + inc1 vars c)"
    using generate_element_code_additive [OF first] by blast
  obtain inc2 where inc2: "\<And>vars values. rest vars values = (\<lambda>c. values c + inc2 vars c)"
    using Cons.IH [OF rest] by blast
  let ?inc = "\<lambda>vars c. (if sum_space_dim \<le> basis_num vars
           \<and> basis_num vars < sum_space_dim + space_dimension data
        then inc1 (map_dof sum_space_dim vars) c else 0) + inc2 vars c"
  show ?case
    by (intro exI [of _ ?inc]) (auto simp: code inc1 inc2 fun_eq_iff)
qed

lemma prepared_simps:
  "num_derivatives (prepared d vars) = d ^ derivative_order vars"
  "derivative_order (prepared d vars) = derivative_order vars"
  "derivative_combinations (prepared d vars)
     = generate_combinations d (d ^ derivative_order vars) (derivative_order vars)"
  "basis_num (prepared d vars) = basis_num vars"
  "jacobian (prepared d vars) = jacobian vars"
  "jacobian_inverse (prepared d vars) = jacobian_inverse vars"
  "det_jacobian (prepared d vars) = det_jacobian vars"
  "basisvalues (prepared d vars) = basisvalues vars"
  by (simp_all add: prepared_def Let_def compute_num_derivatives_power)

lemma prepared_digits:
  assumes "r < num_derivatives (prepared d vars)" "s < derivative_order (prepared d vars)"
  shows "derivative_combinations (prepared d vars) ! r ! s < d"
proof -
  let ?n = "derivative_order vars"
  have r: "r < d ^ ?n" and s: "s < ?n" using assms by (simp_all add: prepared_simps)
  have "0 < d"
  proof (rule ccontr)
    assume "\<not> 0 < d"
    with r s show False by (cases "derivative_order vars") simp_all
  qed
  moreover have "derivative_combinations (prepared d vars) ! r ! s \<in> set (digit_row d ?n r)"
    using r s by (simp add: prepared_simps generate_combinations_rows length_digit_row)
  ultimately show ?thesis by (rule digit_row_bound)
qed

lemma map_dof_simps:
  "num_derivatives (map_dof k vars) = num_derivatives vars"
  "derivative_order (map_dof k vars) = derivative_order vars"
  "derivative_combinations (map_dof k vars) = derivative_combinations vars"
  "basis_num (map_dof k vars) = basis_num vars"
  "local_dof (map_dof k vars) = basis_num vars - k"
  "transform_matrix (map_dof k vars) = transform_matrix vars"
  "jacobian (map_dof k vars) = jacobian vars"
  "jacobian_inverse (map_dof k vars) = jacobian_inverse vars"
  "det_jacobian (map_dof k vars) = det_jacobian vars"
  "basisvalues (map_dof k vars) = basisvalues vars"
  by (simp_all add: map_dof_def)

lemma reset_values_closed:
  "reset_values data_list vars values
     = (\<lambda>c. if c < total_value_shape data_list * num_derivatives vars then 0 else values c)"
  by (auto simp: reset_values_def Let_def fold_reset)

lemma num_components_value_dim:
  "num_components data = Inr nc \<Longrightarrow> value_dim_of data = nc"
  by (cases "value_shape data")
     (auto simp: num_components_def value_dim_of_def split: if_splits)

lemma value_offset_bound:
  assumes "j < length data_list"
  shows "value_offset data_list j + value_dim_of (data_list ! j) \<le> total_value_shape data_list"
proof -
  have "data_list = take j data_list @ data_list ! j # drop (Suc j) data_list"
    using assms by (rule id_take_nth_drop)
  then have "total_value_shape data_list
      = value_offset data_list j + value_dim_of (data_list ! j)
        + sum_list (map value_dim_of (drop (Suc j) data_list))"
    unfolding total_value_shape_def value_offset_def
    by (metis (no_types, lifting) add.assoc list.simps(9) map_append sum_list.Cons
              sum_list_append)
  then show ?thesis by simp
qed

lemma dof_offset_bound:
  assumes "j < length data_list"
  shows "dof_offset data_list j + space_dimension (data_list ! j)
           \<le> total_space_dimension data_list"
proof -
  have "data_list = take j data_list @ data_list ! j # drop (Suc j) data_list"
    using assms by (rule id_take_nth_drop)
  then have "total_space_dimension data_list
      = dof_offset data_list j + space_dimension (data_list ! j)
        + sum_list (map space_dimension (drop (Suc j) data_list))"
    unfolding total_space_dimension_def dof_offset_def
    by (metis (no_types, lifting) add.assoc list.simps(9) map_append sum_list.Cons
              sum_list_append)
  then show ?thesis by simp
qed

lemma evaluate_basis_derivatives_parts:
  assumes "evaluate_basis_derivatives (Inr data_list) = Inr code"
  obtains data0 data_rest element_code where
    "data_list = data0 # data_rest"
    "cell_domain data0 \<in> set [''interval'', ''triangle'', ''tetrahedron'']"
    "data_rest = [] \<Longrightarrow> \<exists>first_code. generate_element_code data0 0 = Inr first_code
        \<and> element_code = (\<lambda>vars values. first_code (map_dof 0 vars) values)"
    "data_rest \<noteq> [] \<Longrightarrow> mixed_elements data_list = Inr element_code"
    "code = (\<lambda>vars values. element_code (prepared (topological_dimension data0) vars)
               (reset_values data_list (prepared (topological_dimension data0) vars) values))"
proof -
  obtain data0 data_rest where dl: "data_list = data0 # data_rest"
    using assms by (cases data_list) (simp_all add: evaluate_basis_derivatives_def)
  have cd: "cell_domain data0 \<in> set [''interval'', ''triangle'', ''tetrahedron'']"
    and gt: "generate_transform (cell_domain data0) = Inr transform_snippet"
    using assms unfolding dl evaluate_basis_derivatives_def generate_transform_def
    by (auto split: if_splits)
  let ?el = "if length (data0 # data_rest) = 1
             then (case generate_element_code data0 0 of
                     Inl e \<Rightarrow> Inl e
                   | Inr code \<Rightarrow> Inr (\<lambda>vars values. code (map_dof 0 vars) values))
             else mixed_elements (data0 # data_rest)"
  obtain element_code where el: "?el = Inr element_code"
    using assms unfolding dl evaluate_basis_derivatives_def
    by (cases ?el) (simp_all add: gt)
  have code: "code = (\<lambda>vars values. element_code (prepared (topological_dimension data0) vars)
               (reset_values data_list (prepared (topological_dimension data0) vars) values))"
    using assms el unfolding dl evaluate_basis_derivatives_def
    by (simp add: gt prepared_def Let_def)
  have single: "\<exists>first_code. generate_element_code data0 0 = Inr first_code
        \<and> element_code = (\<lambda>vars values. first_code (map_dof 0 vars) values)"
    if "data_rest = []"
    using el that by (cases "generate_element_code data0 0") auto
  have mixed: "mixed_elements data_list = Inr element_code" if "data_rest \<noteq> []"
    using el that by (simp add: dl)
  from dl cd single mixed code show ?thesis by (rule that)
qed

lemma cell_in_region:
  fixes N :: nat
  assumes "b + c < tot" "r < N"
  shows "(b + c) * N + r < tot * N"
proof -
  have "(b + c) * N + r < (b + c) * N + N" using assms(2) by simp
  also have "\<dots> = Suc (b + c) * N" by simp
  also have "\<dots> \<le> tot * N" using assms(1) by (intro mult_le_mono1) simp
  finally show ?thesis .
qed

lemma element_code_on_reset:
  assumes gen: "generate_element_code (data_list ! j) (value_offset data_list j) = Inr code_j"
    and j: "j < length data_list"
    and nc: "num_components (data_list ! j) = Inr nc"
    and dm: "d \<le> length (dmats (data_list ! j))"
    and c: "c < nc" and r: "r < d ^ derivative_order vars"
  shows "code_j (map_dof k (prepared d vars)) (reset_values data_list (prepared d vars) values)
           ((value_offset data_list j + c) * d ^ derivative_order vars + r)
     = physical_value (data_list ! j) (map_dof k (prepared d vars)) c r"
proof -
  let ?vars = "map_dof k (prepared d vars)"
  have N: "num_derivatives ?vars = d ^ derivative_order vars"
    by (simp add: map_dof_simps prepared_simps)
  have digits: "derivative_combinations ?vars ! r ! s < length (dmats (data_list ! j))"
    if "r < num_derivatives ?vars" "s < derivative_order ?vars" for r s
    using prepared_digits [of r d vars s] that dm by (simp add: map_dof_simps)
  have "value_offset data_list j + c < total_value_shape data_list"
    using value_offset_bound [OF j] num_components_value_dim [OF nc] c by simp
  then have cell: "(value_offset data_list j + c) * d ^ derivative_order vars + r
      < total_value_shape data_list * d ^ derivative_order vars"
    using r by (rule cell_in_region)
  have r': "r < num_derivatives ?vars" using r N by simp
  show ?thesis
    using generate_element_code_value [OF gen nc digits r' c] cell
    by (simp add: N reset_values_closed prepared_simps)
qed

lemma evaluate_basis_derivatives_value:
  assumes ev: "evaluate_basis_derivatives (Inr data_list) = Inr code"
    and j: "j < length data_list"
    and lo: "dof_offset data_list j \<le> basis_num vars"
    and hi: "basis_num vars < dof_offset data_list j + space_dimension (data_list ! j)"
    and nc: "num_components (data_list ! j) = Inr nc"
    and dm: "topological_dimension (hd data_list) \<le> length (dmats (data_list ! j))"
    and c: "c < nc" and r: "r < topological_dimension (hd data_list) ^ derivative_order vars"
  shows "code vars values
           ((value_offset data_list j + c)
              * topological_dimension (hd data_list) ^ derivative_order vars + r)
     = physical_value (data_list ! j)
         (map_dof (dof_offset data_list j) (prepared (topological_dimension (hd data_list)) vars))
         c r"
proof -
  from ev obtain data0 data_rest element_code where
    dl: "data_list = data0 # data_rest"
    and cd: "cell_domain data0 \<in> set [''interval'', ''triangle'', ''tetrahedron'']"
    and single: "data_rest = [] \<Longrightarrow> \<exists>first_code. generate_element_code data0 0 = Inr first_code
        \<and> element_code = (\<lambda>vars values. first_code (map_dof 0 vars) values)"
    and mixed: "data_rest \<noteq> [] \<Longrightarrow> mixed_elements data_list = Inr element_code"
    and code: "code = (\<lambda>vars values. element_code (prepared (topological_dimension data0) vars)
               (reset_values data_list (prepared (topological_dimension data0) vars) values))"
    by (rule evaluate_basis_derivatives_parts) blast
  let ?d = "topological_dimension (hd data_list)"
  have d: "topological_dimension data0 = ?d" by (simp add: dl)
  have "\<exists>code_j. generate_element_code (data_list ! j) (value_offset data_list j) = Inr code_j
      \<and> element_code (prepared ?d vars) (reset_values data_list (prepared ?d vars) values)
          = code_j (map_dof (dof_offset data_list j) (prepared ?d vars))
              (reset_values data_list (prepared ?d vars) values)"
  proof (cases "data_rest = []")
    case True
    then have j0: "j = 0" using j dl by simp
    from single [OF True] show ?thesis
      by (auto simp: j0 dl True value_offset_def dof_offset_def)
  next
    case False
    have "mixed_elements_loop data_list 0 0 = Inr element_code"
      using mixed [OF False] by (simp add: mixed_elements_def)
    from mixed_elements_loop_dispatch [OF this j, of "prepared ?d vars"] lo hi
    show ?thesis by (simp add: prepared_simps)
  qed
  then obtain code_j where
    gen: "generate_element_code (data_list ! j) (value_offset data_list j) = Inr code_j"
    and el: "element_code (prepared ?d vars) (reset_values data_list (prepared ?d vars) values)
          = code_j (map_dof (dof_offset data_list j) (prepared ?d vars))
              (reset_values data_list (prepared ?d vars) values)"
    by blast
  have "code_j (map_dof (dof_offset data_list j) (prepared ?d vars))
          (reset_values data_list (prepared ?d vars) values)
           ((value_offset data_list j + c) * ?d ^ derivative_order vars + r)
     = physical_value (data_list ! j) (map_dof (dof_offset data_list j) (prepared ?d vars)) c r"
    using gen j nc dm c r by (rule element_code_on_reset)
  then show ?thesis
    by (simp add: code d el)
qed

lemma evaluate_basis_derivatives_region:
  assumes ev: "evaluate_basis_derivatives (Inr data_list) = Inr code"
  shows "\<exists>increment. \<forall>vars buffer x.
           x < total_value_shape data_list
                 * topological_dimension (hd data_list) ^ derivative_order vars
           \<longrightarrow> code vars buffer x = increment vars x"
proof -
  from ev obtain data0 data_rest element_code where
    dl: "data_list = data0 # data_rest"
    and single: "data_rest = [] \<Longrightarrow> \<exists>first_code. generate_element_code data0 0 = Inr first_code
        \<and> element_code = (\<lambda>vars values. first_code (map_dof 0 vars) values)"
    and mixed: "data_rest \<noteq> [] \<Longrightarrow> mixed_elements data_list = Inr element_code"
    and code: "code = (\<lambda>vars values. element_code (prepared (topological_dimension data0) vars)
               (reset_values data_list (prepared (topological_dimension data0) vars) values))"
    by (rule evaluate_basis_derivatives_parts) blast
  have "\<exists>inc. \<forall>vars values. element_code vars values = (\<lambda>c. values c + inc vars c)"
  proof (cases "data_rest = []")
    case True
    from single [OF True] obtain first_code where
      first: "generate_element_code data0 0 = Inr first_code"
      and el: "element_code = (\<lambda>vars values. first_code (map_dof 0 vars) values)"
      by blast
    obtain inc where "\<And>vars values. first_code vars values = (\<lambda>c. values c + inc vars c)"
      using generate_element_code_additive [OF first] by blast
    then show ?thesis
      by (intro exI [of _ "\<lambda>vars. inc (map_dof 0 vars)"]) (simp add: el)
  next
    case False
    show ?thesis
      using mixed [OF False] unfolding mixed_elements_def
      by (rule mixed_elements_loop_additive)
  qed
  then obtain inc where inc: "\<And>vars values. element_code vars values = (\<lambda>c. values c + inc vars c)"
    by blast
  show ?thesis
    by (intro exI [of _ "\<lambda>vars. inc (prepared (topological_dimension data0) vars)"])
       (simp add: code inc reset_values_closed prepared_simps dl)
qed

lemma fold_copy:
  fixes dv :: array
  shows "fold (\<lambda>s vals. vals(b + s := dv s)) [0..<k] vals
     = (\<lambda>x. if b \<le> x \<and> x < b + k then dv (x - b) else vals x)"
proof (induction k)
  case 0
  then show ?case by (simp add: fun_eq_iff)
next
  case (Suc k)
  then show ?case by (auto simp: fun_eq_iff)
qed

lemma all_dofs_loop:
  fixes call :: "nat \<Rightarrow> array \<Rightarrow> array"
  assumes indep: "\<And>i b b' s. s < nv \<Longrightarrow> call i b s = call i b' s"
    and "i < k" "s < nv"
  shows "snd (fold (\<lambda>r (dof_values, vals).
                 let dof_values = call r dof_values
                 in (dof_values, fold (\<lambda>s vals. vals(r * nv + s := dof_values s)) [0..<nv] vals))
               [0..<k] (dv0, vals0)) (i * nv + s) = call i b s"
  using assms(2,3)
proof (induction k arbitrary: i s)
  case 0
  then show ?case by simp
next
  case (Suc k)
  let ?step = "\<lambda>r (dof_values, vals).
                 let dof_values = call r dof_values
                 in (dof_values, fold (\<lambda>s vals. vals(r * nv + s := dof_values s)) [0..<nv] vals)"
  obtain dv vals where prev: "fold ?step [0..<k] (dv0, vals0) = (dv, vals)"
    by (cases "fold ?step [0..<k] (dv0, vals0)")
  have "fold ?step [0..<Suc k] (dv0, vals0) = ?step k (fold ?step [0..<k] (dv0, vals0))"
    by simp
  also have "\<dots> = ?step k (dv, vals)"
    by (simp only: prev)
  finally have new: "snd (fold ?step [0..<Suc k] (dv0, vals0))
      = (\<lambda>x. if k * nv \<le> x \<and> x < k * nv + nv then call k dv (x - k * nv) else vals x)"
    by (simp add: Let_def fold_copy)
  show ?case
  proof (cases "i = k")
    case True
    show ?thesis
      unfolding new using Suc.prems(2) indep [OF Suc.prems(2), of k dv b] by (simp add: True)
  next
    case False
    then have i: "i < k" using Suc.prems(1) by simp
    have "i * nv + s < k * nv"
    proof -
      have "i * nv + s < i * nv + nv" using Suc.prems(2) by simp
      also have "\<dots> = Suc i * nv" by simp
      also have "\<dots> \<le> k * nv" using i by (intro mult_le_mono1) simp
      finally show ?thesis .
    qed
    moreover have "vals (i * nv + s) = call i b s"
      using Suc.IH [OF i Suc.prems(2)] unfolding prev snd_conv .
    ultimately show ?thesis
      unfolding new by simp
  qed
qed

lemma spec_chain_snoc:
  "spec_chain m select (digits @ [c]) = mat_mul m (select c) (spec_chain m select digits)"
  by (simp add: spec_chain_def)

lemma spec_chain_cong:
  assumes "\<And>c. c \<in> set digits \<Longrightarrow> select c = select' c"
  shows "spec_chain m select digits = spec_chain m select' digits"
  using assms
proof (induction digits rule: rev_induct)
  case Nil
  then show ?case by (simp add: spec_chain_def)
next
  case (snoc c digits)
  then show ?case by (simp add: spec_chain_snoc)
qed

lemma tables_entry:
  assumes "i < length (dmats data)"
  shows "entry (map numpy_transpose (dmats data) ! i) (t, s) = entry (dmats data ! i) (s, t)"
  using assms by (simp add: numpy_transpose_def)

lemma example_tables:
  "tabulate_dmats (example_element dofs) = Inr [numpy_transpose example_dmat]"
  by (simp add: tabulate_dmats_def example_element_def example_dmat_def numpy_transpose_def)

lemma example_prepared:
  "derivative_order (prepared (Suc 0) (example_variables g n)) = n"
  "num_derivatives (prepared (Suc 0) (example_variables g n)) = Suc 0"
  "s < n \<Longrightarrow> derivative_combinations (prepared (Suc 0) (example_variables g n)) ! 0 ! s = 0"
  "basis_num (prepared (Suc 0) (example_variables g n)) = g"
  by (simp_all add: prepared_simps example_variables_def generate_combinations_rows digit_row_def)

lemma Inr_projr: "\<not> isl x \<Longrightarrow> x = Inr (projr x)"
  by (cases x) simp_all

lemma example_piola_tables:
  "tabulate_dmats example_piola = Inr [numpy_transpose example_dmat]"
  by (simp add: tabulate_dmats_def example_piola_def example_element_def example_dmat_def
                numpy_transpose_def)

lemma example_piola_reference:
  "compute_reference_derivatives example_piola [numpy_transpose example_dmat]
     = Inr (projr (compute_reference_derivatives example_piola [numpy_transpose example_dmat]))"
  by (rule Inr_projr)
     (simp add: compute_reference_derivatives_def num_components_def mapping_lines_def
                example_piola_def example_element_def)

lemma mixed_elements_loop_generated:
  assumes "mixed_elements_loop data_list sum_value_dim sum_space_dim = Inr code"
    and "j < length data_list"
  shows "\<exists>code_j. generate_element_code (data_list ! j) (sum_value_dim + value_offset data_list j)
                     = Inr code_j"
  using assms
proof (induction data_list arbitrary: sum_value_dim sum_space_dim code j)
  case Nil
  then show ?case by simp
next
  case (Cons data data_list)
  from Cons.prems(1) obtain first_code rest where
    first: "generate_element_code data sum_value_dim = Inr first_code"
    and rest: "mixed_elements_loop data_list (sum_value_dim + value_dim_of data)
       (sum_space_dim + space_dimension data) = Inr rest"
    by (rule mixed_elements_loop_Cons)
  show ?case
  proof (cases j)
    case 0
    then show ?thesis using first by (simp add: value_offset_def)
  next
    case (Suc j')
    then have "j' < length data_list" using Cons.prems(2) by simp
    from Cons.IH [OF rest this] show ?thesis
      by (simp add: Suc value_offset_def add.assoc)
  qed
qed

lemma evaluate_basis_derivatives_element:
  assumes ev: "evaluate_basis_derivatives (Inr data_list) = Inr code"
    and j: "j < length data_list"
  shows "\<exists>code_j. generate_element_code (data_list ! j) (value_offset data_list j) = Inr code_j"
proof -
  from ev obtain data0 data_rest element_code where
    dl: "data_list = data0 # data_rest"
    and single: "data_rest = [] \<Longrightarrow> \<exists>first_code. generate_element_code data0 0 = Inr first_code
        \<and> element_code = (\<lambda>vars values. first_code (map_dof 0 vars) values)"
    and mixed: "data_rest \<noteq> [] \<Longrightarrow> mixed_elements data_list = Inr element_code"
    by (rule evaluate_basis_derivatives_parts) blast
  show ?thesis
  proof (cases "data_rest = []")
    case True
    then have "j = 0" using j dl by simp
    with single [OF True] show ?thesis
      by (auto simp: dl True value_offset_def)
  next
    case False
    have "mixed_elements_loop data_list 0 0 = Inr element_code"
      using mixed [OF False] by (simp add: mixed_elements_def)
    from mixed_elements_loop_generated [OF this j] show ?thesis by simp
  qed
qed

lemma prod_list_upt:
  fixes f :: "nat \<Rightarrow> real"
  shows "prod_list (map f [0..<n]) = (\<Prod>k<n. f k)"
  by (induction n) simp_all

lemma transform_matrix_prepared:
  "transform_matrix (map_dof k (prepared d vars)) (r, r')
     = (\<Prod>i<derivative_order vars.
          jacobian_inverse vars
            (generate_combinations d (d ^ derivative_order vars) (derivative_order vars) ! r ! i,
             generate_combinations d (d ^ derivative_order vars) (derivative_order vars) ! r' ! i))"
  by (simp add: map_dof_def prepared_def Let_def transform_snippet_def prod_list_upt
                compute_num_derivatives_power)

lemma example_num_components: "num_components (example_element dofs) = Inr 1"
  by (simp add: num_components_def example_element_def)

lemma example_mapping:
  "mapping_lines (example_element dofs) nc = Inr (\<lambda>vars r derivatives. derivatives)"
  by (simp add: mapping_lines_def example_element_def)

lemma example_dmats: "dmats (example_element dofs) = [example_dmat]"
  by (simp add: example_element_def)

lemma example_reference:
  "\<not> isl (compute_reference_derivatives (example_element dofs) tables)"
  by (simp add: compute_reference_derivatives_def example_num_components example_mapping
                example_dmats)

lemma example_transform:
  "\<not> isl (transform_derivatives (example_element dofs) sum_value_dim)"
  by (simp add: transform_derivatives_def example_num_components)

lemma example_generate:
  "\<not> isl (generate_element_code (example_element dofs) sum_value_dim)"
proof -
  obtain reference_code where
    r: "compute_reference_derivatives (example_element dofs) [numpy_transpose example_dmat]
          = Inr reference_code"
    using example_reference [of dofs "[numpy_transpose example_dmat]"]
    by (cases "compute_reference_derivatives (example_element dofs)
                 [numpy_transpose example_dmat]") simp_all
  obtain transform_code where
    t: "transform_derivatives (example_element dofs) sum_value_dim = Inr transform_code"
    using example_transform [of dofs sum_value_dim]
    by (cases "transform_derivatives (example_element dofs) sum_value_dim") simp_all
  show ?thesis
    by (simp add: generate_element_code_def example_tables r t)
qed

lemma example_evaluate:
  "evaluate_basis_derivatives (Inr [example_element dofs])
     = Inr (projr (evaluate_basis_derivatives (Inr [example_element dofs])))"
proof (rule Inr_projr)
  obtain code where g: "generate_element_code (example_element dofs) 0 = Inr code"
    using example_generate [of dofs 0]
    by (cases "generate_element_code (example_element dofs) 0") simp_all
  have "cell_domain (example_element dofs) = ''interval''"
    by (simp add: example_element_def)
  then show "\<not> isl (evaluate_basis_derivatives (Inr [example_element dofs]))"
    by (simp add: evaluate_basis_derivatives_def generate_transform_def g)
qed

lemma mixed_elements_loop_ok:
  assumes "\<And>data sum_value_dim. data \<in> set data_list \<Longrightarrow>
             \<not> isl (generate_element_code data sum_value_dim)"
  shows "\<not> isl (mixed_elements_loop data_list sum_value_dim sum_space_dim)"
  using assms
proof (induction data_list arbitrary: sum_value_dim sum_space_dim)
  case Nil
  then show ?case by simp
next
  case (Cons data data_list)
  obtain first_code where f: "generate_element_code data sum_value_dim = Inr first_code"
    using Cons.prems [of data sum_value_dim]
    by (cases "generate_element_code data sum_value_dim") simp_all
  obtain rest where r: "mixed_elements_loop data_list (sum_value_dim + value_dim_of data)
       (sum_space_dim + space_dimension data) = Inr rest"
    using Cons.IH [of "sum_value_dim + value_dim_of data" "sum_space_dim + space_dimension data"]
          Cons.prems
    by (cases "mixed_elements_loop data_list (sum_value_dim + value_dim_of data)
                 (sum_space_dim + space_dimension data)") simp_all
  show ?case by (simp add: Let_def f r)
qed

lemma evaluate_basis_derivatives_ok:
  assumes "data_list \<noteq> []"
    and "cell_domain (hd data_list) \<in> set [''interval'', ''triangle'', ''tetrahedron'']"
    and "\<And>data sum_value_dim. data \<in> set data_list \<Longrightarrow>
             \<not> isl (generate_element_code data sum_value_dim)"
  shows "\<not> isl (evaluate_basis_derivatives (Inr data_list))"
proof -
  obtain data0 data_rest where dl: "data_list = data0 # data_rest"
    using assms(1) by (cases data_list) simp_all
  have gt: "generate_transform (cell_domain data0) = Inr transform_snippet"
    using assms(2) by (simp add: generate_transform_def dl)
  obtain first_code where f: "generate_element_code data0 0 = Inr first_code"
    using assms(3) [of data0 0] by (cases "generate_element_code data0 0") (simp_all add: dl)
  obtain mixed_code where m: "mixed_elements (data0 # data_rest) = Inr mixed_code"
    using mixed_elements_loop_ok [of "data0 # data_rest" 0 0] assms(3)
    by (cases "mixed_elements (data0 # data_rest)") (simp_all add: dl mixed_elements_def)
  show ?thesis
    unfolding dl evaluate_basis_derivatives_def by (simp add: gt f m)
qed

lemma evaluate_basis_derivatives_outside:
  assumes ev: "evaluate_basis_derivatives (Inr data_list) = Inr code"
    and len: "2 \<le> length data_list"
    and out: "total_space_dimension data_list \<le> basis_num vars"
  shows "code vars buffer
     = reset_values data_list (prepared (topological_dimension (hd data_list)) vars) buffer"
proof -
  from ev obtain data0 data_rest element_code where
    dl: "data_list = data0 # data_rest"
    and single: "data_rest = [] \<Longrightarrow> \<exists>first_code. generate_element_code data0 0 = Inr first_code
        \<and> element_code = (\<lambda>vars values. first_code (map_dof 0 vars) values)"
    and mixed: "data_rest \<noteq> [] \<Longrightarrow> mixed_elements data_list = Inr element_code"
    and code: "code = (\<lambda>vars values. element_code (prepared (topological_dimension data0) vars)
               (reset_values data_list (prepared (topological_dimension data0) vars) values))"
    by (rule evaluate_basis_derivatives_parts) blast
  have "data_rest \<noteq> []" using len dl by auto
  then have loop: "mixed_elements_loop data_list 0 0 = Inr element_code"
    using mixed by (simp add: mixed_elements_def)
  have "0 + total_space_dimension data_list
      \<le> basis_num (prepared (topological_dimension data0) vars)"
    using out by (simp add: prepared_simps)
  then have "element_code (prepared (topological_dimension data0) vars) V = V" for V
    by (rule mixed_elements_loop_outside [OF loop disjI2])
  then show ?thesis by (simp add: code dl)
qed

lemma evaluate_basis_derivatives_dispatch:
  assumes ev: "evaluate_basis_derivatives (Inr data_list) = Inr code"
    and j: "j < length data_list"
    and lo: "dof_offset data_list j \<le> basis_num vars"
    and hi: "basis_num vars < dof_offset data_list j + space_dimension (data_list ! j)"
  shows "\<exists>code_j. generate_element_code (data_list ! j) (value_offset data_list j) = Inr code_j
      \<and> code vars buffer
          = code_j (map_dof (dof_offset data_list j)
                      (prepared (topological_dimension (hd data_list)) vars))
              (reset_values data_list (prepared (topological_dimension (hd data_list)) vars)
                 buffer)"
proof -
  from ev obtain data0 data_rest element_code where
    dl: "data_list = data0 # data_rest"
    and single: "data_rest = [] \<Longrightarrow> \<exists>first_code. generate_element_code data0 0 = Inr first_code
        \<and> element_code = (\<lambda>vars values. first_code (map_dof 0 vars) values)"
    and mixed: "data_rest \<noteq> [] \<Longrightarrow> mixed_elements data_list = Inr element_code"
    and code: "code = (\<lambda>vars values. element_code (prepared (topological_dimension data0) vars)
               (reset_values data_list (prepared (topological_dimension data0) vars) values))"
    by (rule evaluate_basis_derivatives_parts) blast
  let ?d = "topological_dimension (hd data_list)"
  have d: "topological_dimension data0 = ?d" by (simp add: dl)
  have "\<exists>code_j. generate_element_code (data_list ! j) (value_offset data_list j) = Inr code_j
      \<and> element_code (prepared ?d vars) (reset_values data_list (prepared ?d vars) buffer)
          = code_j (map_dof (dof_offset data_list j) (prepared ?d vars))
              (reset_values data_list (prepared ?d vars) buffer)"
  proof (cases "data_rest = []")
    case True
    then have j0: "j = 0" using j dl by simp
    from single [OF True] show ?thesis
      by (auto simp: j0 dl True value_offset_def dof_offset_def)
  next
    case False
    have "mixed_elements_loop data_list 0 0 = Inr element_code"
      using mixed [OF False] by (simp add: mixed_elements_def)
    from mixed_elements_loop_dispatch [OF this j, of "prepared ?d vars"] lo hi
    show ?thesis by (simp add: prepared_simps)
  qed
  then show ?thesis by (simp add: code d)
qed

lemma example_mixed_evaluate:
  "evaluate_basis_derivatives (Inr example_mixed)
     = Inr (projr (evaluate_basis_derivatives (Inr example_mixed)))"
proof (rule Inr_projr)
  show "\<not> isl (evaluate_basis_derivatives (Inr example_mixed))"
  proof (rule evaluate_basis_derivatives_ok)
    show "example_mixed \<noteq> []" by (simp add: example_mixed_def)
    show "cell_domain (hd example_mixed) \<in> set [''interval'', ''triangle'', ''tetrahedron'']"
      by (simp add: example_mixed_def example_element_def)
    show "\<not> isl (generate_element_code data sum_value_dim)"
      if "data \<in> set example_mixed" for data sum_value_dim
      using that example_generate by (auto simp: example_mixed_def)
  qed
qed

lemma example_mixed_offsets:
  "length example_mixed = 3"
  "dof_offset example_mixed 0 = 0" "dof_offset example_mixed (Suc 0) = 3"
  "dof_offset example_mixed 2 = 7"
  "value_offset example_mixed 0 = 0" "value_offset example_mixed (Suc 0) = 1"
  "value_offset example_mixed 2 = 2"
  "total_space_dimension example_mixed = 9" "total_value_shape example_mixed = 3"
  "space_dimension (example_mixed ! 0) = 3" "space_dimension (example_mixed ! Suc 0) = 4"
  "space_dimension (example_mixed ! 2) = 2"
  "topological_dimension (hd example_mixed) = 1"
  by (simp_all add: example_mixed_def dof_offset_def value_offset_def total_space_dimension_def
                    total_value_shape_def value_dim_of_def example_element_def
                    numeral_2_eq_2)

lemma generate_element_code_ok:
  assumes nc: "num_components data = Inr nc"
    and t: "tabulate_dmats data = Inr tables"
    and dm: "dmats data \<noteq> []"
    and ml: "mapping_lines data nc = Inr mapping_code"
  shows "\<not> isl (generate_element_code data sum_value_dim)"
proof -
  obtain dmat0 rest where d: "dmats data = dmat0 # rest"
    using dm by (cases "dmats data") simp_all
  show ?thesis
    by (simp add: generate_element_code_def t compute_reference_derivatives_def nc d ml
                  transform_derivatives_def)
qed

lemma example_piola_evaluate:
  "evaluate_basis_derivatives (Inr [example_piola])
     = Inr (projr (evaluate_basis_derivatives (Inr [example_piola])))"
proof (rule Inr_projr)
  have nc: "num_components example_piola = Inr 1"
    by (simp add: num_components_def example_piola_def example_element_def)
  have dm: "dmats example_piola \<noteq> []"
    by (simp add: example_piola_def example_element_def)
  have ml: "mapping_lines example_piola 1 = Inr (covariant_piola_lines 1 1)"
    by (simp add: mapping_lines_def example_piola_def example_element_def)
  show "\<not> isl (evaluate_basis_derivatives (Inr [example_piola]))"
  proof (rule evaluate_basis_derivatives_ok)
    show "[example_piola] \<noteq> []" by simp
    show "cell_domain (hd [example_piola]) \<in> set [''interval'', ''triangle'', ''tetrahedron'']"
      by (simp add: example_piola_def example_element_def)
    show "\<not> isl (generate_element_code data sum_value_dim)"
      if "data \<in> set [example_piola]" for data sum_value_dim
      using that generate_element_code_ok [OF nc example_piola_tables dm ml] by simp
  qed
qed

lemma spec_mapped_value_vars:
  assumes "jacobian V = jacobian vars" "jacobian_inverse V = jacobian_inverse vars"
    "det_jacobian V = det_jacobian vars"
  shows "spec_mapped_value data V f c = spec_mapped_value data vars f c"
  by (simp add: spec_mapped_value_def assms)

lemma reference_value_order_zero:
  assumes "derivative_order V = 0"
  shows "reference_value data select V c r = plain_basis_value data V c (local_dof V)"
proof -
  let ?m = "num_expansion_members data"
  let ?a = "\<lambda>s. entry (coefficients data ! c) (local_dof V, s)"
  have "(\<Sum>t<?m. ?a s * mat_identity (s, t) * basisvalues V data t) = ?a s * basisvalues V data s"
    if "s < ?m" for s
  proof -
    have "(\<Sum>t<?m. ?a s * mat_identity (s, t) * basisvalues V data t)
        = (\<Sum>t<?m. if t = s then ?a s * basisvalues V data t else 0)"
      by (intro sum.cong refl) (simp add: mat_identity_def)
    then show ?thesis using that by simp
  qed
  then have "(\<Sum>s<?m. \<Sum>t<?m. ?a s * mat_identity (s, t) * basisvalues V data t)
      = (\<Sum>s<?m. ?a s * basisvalues V data s)"
    by (intro sum.cong refl) simp
  then show ?thesis
    by (simp add: reference_value_def spec_reference_value_def spec_chain_def assms
                  plain_basis_value_def)
qed

lemma order_zero_value:
  assumes ev: "evaluate_basis_derivatives (Inr data_list) = Inr code"
    and j: "j < length data_list"
    and lo: "dof_offset data_list j \<le> basis_num vars"
    and hi: "basis_num vars < dof_offset data_list j + space_dimension (data_list ! j)"
    and nc: "num_components (data_list ! j) = Inr nc"
    and c: "c < nc" and n: "derivative_order vars = 0"
  shows "code vars buffer (value_offset data_list j + c)
     = spec_mapped_value (data_list ! j) vars
         (\<lambda>k. plain_basis_value (data_list ! j) vars k (basis_num vars - dof_offset data_list j)) c"
proof -
  let ?d = "topological_dimension (hd data_list)"
  let ?V = "map_dof (dof_offset data_list j) (prepared ?d vars)"
  let ?R = "reset_values data_list (prepared ?d vars) buffer"
  from evaluate_basis_derivatives_dispatch [OF ev j lo hi, of buffer] obtain code_j where
    gen: "generate_element_code (data_list ! j) (value_offset data_list j) = Inr code_j"
    and code: "code vars buffer = code_j ?V ?R"
    by blast
  have N: "num_derivatives ?V = 1" and n': "derivative_order ?V = 0"
    by (simp_all add: map_dof_simps prepared_simps n)
  have digits: "derivative_combinations ?V ! r ! s < length (dmats (data_list ! j))"
    if "r < num_derivatives ?V" "s < derivative_order ?V" for r s
    using that n' by simp
  have r: "0 < num_derivatives ?V" by (simp add: N)
  have "value_offset data_list j + c < total_value_shape data_list"
    using value_offset_bound [OF j] num_components_value_dim [OF nc] c by simp
  then have zero: "?R (value_offset data_list j + c) = 0"
    by (simp add: reset_values_closed prepared_simps n)
  have T: "transform_matrix ?V (0, 0) = 1"
    by (simp add: transform_matrix_prepared n)
  have "code_j ?V ?R ((value_offset data_list j + c) * num_derivatives ?V + 0)
      = ?R ((value_offset data_list j + c) * num_derivatives ?V + 0)
        + physical_value (data_list ! j) ?V c 0"
    using gen nc digits r c by (rule generate_element_code_value)
  then have "code vars buffer (value_offset data_list j + c)
      = physical_value (data_list ! j) ?V c 0"
    by (simp add: code N zero)
  also have "\<dots> = spec_mapped_value (data_list ! j) ?V
         (\<lambda>k. plain_basis_value (data_list ! j) ?V k (local_dof ?V)) c"
    by (simp add: physical_value_def N T reference_value_order_zero [OF n'])
  also have "\<dots> = spec_mapped_value (data_list ! j) vars
         (\<lambda>k. plain_basis_value (data_list ! j) ?V k (local_dof ?V)) c"
    by (rule spec_mapped_value_vars) (simp_all add: map_dof_simps prepared_simps)
  finally show ?thesis
    by (simp add: plain_basis_value_def map_dof_simps prepared_simps)
qed

lemma evaluate_basis_derivatives_nonempty:
  "evaluate_basis_derivatives (Inr data_list) = Inr code \<Longrightarrow> data_list \<noteq> []"
  by (auto simp: evaluate_basis_derivatives_def)

lemma evaluate_basis_derivatives_all_parts:
  assumes all: "evaluate_basis_derivatives_all (Inr data_list) = Inr all_code"
    and single: "evaluate_basis_derivatives (Inr data_list) = Inr code"
  shows "total_space_dimension data_list = 1 \<Longrightarrow>
           all_code = (\<lambda>vars values. code (vars\<lparr>basis_num := 0\<rparr>) values)"
    and "total_space_dimension data_list \<noteq> 1 \<Longrightarrow>
           all_code vars buffer
             = snd (fold (\<lambda>r (dof_values, vals).
                      let dof_values = code (vars\<lparr>basis_num := r\<rparr>) dof_values
                      in (dof_values,
                          fold (\<lambda>s vals. vals(r * (total_value_shape data_list
                                    * topological_dimension (hd data_list) ^ derivative_order vars)
                                  + s := dof_values s))
                            [0..<total_value_shape data_list
                                    * topological_dimension (hd data_list) ^ derivative_order vars]
                            vals))
                    [0..<total_space_dimension data_list]
                    (fold (\<lambda>r dof_values. dof_values(r := 0))
                       [0..<total_value_shape data_list
                              * topological_dimension (hd data_list) ^ derivative_order vars]
                       (\<lambda>r. 0), buffer))"
proof -
  obtain data0 data_rest where dl: "data_list = data0 # data_rest"
    using evaluate_basis_derivatives_nonempty [OF single] by (cases data_list) simp_all
  show "all_code = (\<lambda>vars values. code (vars\<lparr>basis_num := 0\<rparr>) values)"
    if "total_space_dimension data_list = 1"
    using all that by (simp add: evaluate_basis_derivatives_all_def single Let_def)
  show "all_code vars buffer
             = snd (fold (\<lambda>r (dof_values, vals).
                      let dof_values = code (vars\<lparr>basis_num := r\<rparr>) dof_values
                      in (dof_values,
                          fold (\<lambda>s vals. vals(r * (total_value_shape data_list
                                    * topological_dimension (hd data_list) ^ derivative_order vars)
                                  + s := dof_values s))
                            [0..<total_value_shape data_list
                                    * topological_dimension (hd data_list) ^ derivative_order vars]
                            vals))
                    [0..<total_space_dimension data_list]
                    (fold (\<lambda>r dof_values. dof_values(r := 0))
                       [0..<total_value_shape data_list
                              * topological_dimension (hd data_list) ^ derivative_order vars]
                       (\<lambda>r. 0), buffer))"
    if "total_space_dimension data_list \<noteq> 1"
  proof -
    have ifeq: "(if C = Suc 0 then N else C * N) = C * N" for C N :: nat
      by simp
    show ?thesis
      using all that unfolding dl
      by (auto simp: evaluate_basis_derivatives_all_def single [unfolded dl] Let_def
                     compute_num_derivatives_power ifeq)
  qed
qed

lemma evaluate_basis_derivatives_all_ok:
  assumes "evaluate_basis_derivatives (Inr data_list) = Inr code"
  shows "\<not> isl (evaluate_basis_derivatives_all (Inr data_list))"
proof -
  obtain data0 data_rest where dl: "data_list = data0 # data_rest"
    using evaluate_basis_derivatives_nonempty [OF assms] by (cases data_list) simp_all
  show ?thesis
    unfolding evaluate_basis_derivatives_all_def
    by (simp add: assms Let_def) (simp add: dl)
qed

lemma example_all_evaluate:
  "evaluate_basis_derivatives_all (Inr [example_element dofs])
     = Inr (projr (evaluate_basis_derivatives_all (Inr [example_element dofs])))"
  using example_evaluate by (intro Inr_projr evaluate_basis_derivatives_all_ok)

lemma num_components_tensor:
  "2 \<le> length (value_shape data) \<Longrightarrow>
     num_components data = Inl (Tensor_valued_not_supported (family data))"
  by (auto simp: num_components_def)

lemma num_components_Inr_shape:
  "num_components data = Inr nc \<Longrightarrow> length (value_shape data) \<le> 1"
  by (auto simp: num_components_def split: if_splits)

lemma generate_element_code_shape:
  assumes "generate_element_code data sum_value_dim = Inr code"
  shows "length (value_shape data) \<le> 1"
proof -
  from assms obtain nc where "num_components data = Inr nc"
    by (rule generate_element_code_parts)
  then show ?thesis by (rule num_components_Inr_shape)
qed

lemma evaluate_basis_derivatives_all_Inl:
  "isl (evaluate_basis_derivatives (Inr data_list)) \<Longrightarrow>
     isl (evaluate_basis_derivatives_all (Inr data_list))"
  by (cases "evaluate_basis_derivatives (Inr data_list)")
     (simp_all add: evaluate_basis_derivatives_all_def)

lemma example_element_simps:
  "topological_dimension (example_element dofs) = Suc 0"
  "space_dimension (example_element dofs) = dofs"
  "num_expansion_members (example_element dofs) = 2"
  "mapping (example_element dofs) = ''affine''"
  "cell_domain (example_element dofs) = ''interval''"
  "value_shape (example_element dofs) = []"
  "dmats (example_element dofs) = [example_dmat]"
  "coefficients (example_element dofs) = [example_coefficients]"
  by (simp_all add: example_element_def)

lemma spec_chain_zero:
  assumes "digits \<noteq> []" and "\<And>c x. c \<in> set digits \<Longrightarrow> select c x = 0"
  shows "spec_chain m select digits = (\<lambda>x. 0)"
proof -
  obtain ds c where d: "digits = ds @ [c]"
    using assms(1) by (cases digits rule: rev_cases) simp_all
  have "select c = (\<lambda>x. 0)"
    using assms(2) [of c] by (auto simp: d)
  then show ?thesis
    by (simp add: d spec_chain_snoc mat_mul_def fun_eq_iff)
qed

lemma physical_value_zero:
  assumes zero: "\<And>i x. i < length (dmats data) \<Longrightarrow> entry (dmats data ! i) x = 0"
    and n: "1 \<le> derivative_order V"
    and digits: "\<And>r s. r < num_derivatives V \<Longrightarrow> s < derivative_order V \<Longrightarrow>
                   derivative_combinations V ! r ! s < length (dmats data)"
  shows "physical_value data V c r = 0"
proof -
  have chain: "spec_chain (num_expansion_members data) (dmats_tables data)
          (map (\<lambda>s. derivative_combinations V ! r' ! s) [0..<derivative_order V]) = (\<lambda>x. 0)"
    if r': "r' < num_derivatives V" for r'
  proof (rule spec_chain_zero)
    show "map (\<lambda>s. derivative_combinations V ! r' ! s) [0..<derivative_order V] \<noteq> []"
      using n by simp
    show "dmats_tables data k x = 0"
      if "k \<in> set (map (\<lambda>s. derivative_combinations V ! r' ! s) [0..<derivative_order V])"
      for k x
    proof -
      have k: "k < length (dmats data)" using that digits [OF r'] by auto
      obtain t s where x: "x = (t, s)" by (cases x)
      show ?thesis
        using k zero [OF k, of "(s, t)"] by (simp add: dmats_tables_def x numpy_transpose_def)
    qed
  qed
  have "reference_value data (dmats_tables data) V k r' = 0"
    if "r' < num_derivatives V" for k r'
    by (simp add: reference_value_def spec_reference_value_def chain [OF that])
  then have "spec_mapped_value data V (\<lambda>k. reference_value data (dmats_tables data) V k r') c = 0"
    if "r' < num_derivatives V" for r'
    using that by (simp add: spec_mapped_value_def)
  then show ?thesis
    by (simp add: physical_value_def)
qed

lemma example_constant_evaluate:
  "evaluate_basis_derivatives (Inr [example_constant])
     = Inr (projr (evaluate_basis_derivatives (Inr [example_constant])))"
proof (rule Inr_projr)
  have nc: "num_components example_constant = Inr 1"
    by (simp add: num_components_def example_constant_def)
  have t: "tabulate_dmats example_constant
      = Inr (map numpy_transpose (dmats example_constant))"
    by (simp add: tabulate_dmats_def example_constant_def numpy_transpose_def)
  have dm: "dmats example_constant \<noteq> []"
    by (simp add: example_constant_def)
  have ml: "mapping_lines example_constant 1 = Inr (\<lambda>vars r derivatives. derivatives)"
    by (simp add: mapping_lines_def example_constant_def)
  show "\<not> isl (evaluate_basis_derivatives (Inr [example_constant]))"
  proof (rule evaluate_basis_derivatives_ok)
    show "[example_constant] \<noteq> []" by simp
    show "cell_domain (hd [example_constant])
        \<in> set [''interval'', ''triangle'', ''tetrahedron'']"
      by (simp add: example_constant_def)
    show "\<not> isl (generate_element_code data sum_value_dim)"
      if "data \<in> set [example_constant]" for data sum_value_dim
      using that generate_element_code_ok [OF nc t dm ml] by simp
  qed
qed

lemma example_constant_all_evaluate:
  "evaluate_basis_derivatives_all (Inr [example_constant])
     = Inr (projr (evaluate_basis_derivatives_all (Inr [example_constant])))"
  using example_constant_evaluate by (intro Inr_projr evaluate_basis_derivatives_all_ok)

section \<open>The claims\<close>

subsection \<open>C5: the number of derivatives and the table of combinations\<close>

text \<open>
  C5. For a topological dimension \<open>d \<ge> 1\<close> and an order \<open>n\<close>, the count that the loop of
  \<open>n\<close> multiplications from 1 computes is \<open>d ^ n\<close>. The table of combinations has that
  many rows; row \<open>r\<close> has \<open>n\<close> entries below \<open>d\<close> and denotes \<open>r\<close> in base \<open>d\<close>, the most
  significant digit first; the rows are distinct and are all the tuples of \<open>n\<close> digits
  below \<open>d\<close>; for \<open>n = 0\<close> the table is the single empty tuple.
\<close>

theorem count_and_combinations:
  assumes "1 \<le> d" and "r < d ^ n"
  shows "compute_num_derivatives d n = d ^ n
    \<and> length (generate_combinations d (compute_num_derivatives d n) n) = d ^ n
    \<and> length (generate_combinations d (compute_num_derivatives d n) n ! r) = n
    \<and> set (generate_combinations d (compute_num_derivatives d n) n ! r) \<subseteq> {..<d}
    \<and> base_value d (generate_combinations d (compute_num_derivatives d n) n ! r) = r
    \<and> distinct (generate_combinations d (compute_num_derivatives d n) n)
    \<and> set (generate_combinations d (compute_num_derivatives d n) n)
        = {cs. set cs \<subseteq> {..<d} \<and> length cs = n}
    \<and> generate_combinations d (compute_num_derivatives d 0) 0 = [[]]"
proof -
  have d: "0 < d" using assms(1) by simp
  have row: "generate_combinations d (d ^ n) n ! r = digit_row d n r"
    using assms(2) by (simp add: generate_combinations_rows)
  have "set (digit_row d n r) \<subseteq> {..<d}"
    using digit_row_bound [OF d] by auto
  moreover have "base_value d (digit_row d n r) = r"
    using assms(2) by (simp add: base_value_digit_row)
  moreover have "generate_combinations d (Suc 0) 0 = [[]]"
    by (simp add: generate_combinations_rows digit_row_def)
  ultimately show ?thesis
    using distinct_generate_combinations [of d n] set_generate_combinations [OF d, of n]
    by (simp add: compute_num_derivatives_power row length_digit_row
                  generate_combinations_rows [of d "d ^ n" n, THEN arg_cong [of _ _ length]])
qed

theorem count_and_combinations_witness:
  "compute_num_derivatives 2 2 = 2 ^ 2
    \<and> length (generate_combinations 2 (compute_num_derivatives 2 2) 2) = 2 ^ 2
    \<and> length (generate_combinations 2 (compute_num_derivatives 2 2) 2 ! 3) = 2
    \<and> base_value 2 (generate_combinations 2 (compute_num_derivatives 2 2) 2 ! 3) = 3
    \<and> distinct (generate_combinations 2 (compute_num_derivatives 2 2) 2)"
proof -
  have h1: "(1::nat) \<le> 2" and h2: "(3::nat) < 2 ^ 2" by simp_all
  show ?thesis
    using count_and_combinations [OF h1 h2] by blast
qed

subsection \<open>C10: the tables are the transposed matrices\<close>

text \<open>
  C10. The table that the procedure declares for direction \<open>i\<close> is the transpose of the
  matrix \<open>dmats[i]\<close> of the element, and one step of the chain puts into the accumulator
  at \<open>(t, u)\<close> the sum over \<open>s\<close> of the table at \<open>(t, s)\<close>, which is \<open>dmats[i]\<close> at \<open>(s, t)\<close>,
  times the old accumulator at \<open>(s, u)\<close>.
\<close>

theorem tabulated_dmats_transposed:
  assumes "tabulate_dmats data = Inr tables"
    and "i < length (dmats data)"
    and "m = num_expansion_members data" and "t < m" and "u < m"
  shows "tables ! i = numpy_transpose (dmats data ! i)
    \<and> shape (tables ! i) = (m, m)
    \<and> entry (tables ! i) (t, s) = entry (dmats data ! i) (s, t)
    \<and> fst (dmats_product (m, m) i i tables (update_dmats (m, m) (D, D_old))) (t, u)
        = (\<Sum>s<m. entry (numpy_transpose (dmats data ! i)) (t, s) * D (s, u))
    \<and> fst (dmats_product (m, m) i i tables (update_dmats (m, m) (D, D_old))) (t, u)
        = (\<Sum>s<m. entry (dmats data ! i) (s, t) * D (s, u))"
proof -
  have tables: "tables = map numpy_transpose (dmats data)"
    using assms(1) by (rule tabulate_dmats_Inr)
  have "shape (dmats data ! i) = (m, m)"
    using tabulate_dmats_Inr(2) [OF assms(1), of "dmats data ! i"] assms(2,3) by simp
  then have sh: "shape (tables ! i) = (m, m)"
    using assms(2) by (simp add: tables numpy_transpose_def)
  have step: "fst (dmats_product (m, m) i i tables (update_dmats (m, m) (D, D_old))) (t, u)
      = (\<Sum>s<m. entry (tables ! i) (t, s) * D (s, u))"
    using assms(4,5) by (simp add: update_dmats_closed dmats_product_closed)
  show ?thesis
    using assms(2) sh step by (simp add: tables numpy_transpose_def)
qed

theorem tabulated_dmats_transposed_witness:
  "[numpy_transpose example_dmat] ! 0 = numpy_transpose (dmats (example_element 2) ! 0)
    \<and> shape ([numpy_transpose example_dmat] ! 0) = (2, 2)
    \<and> entry ([numpy_transpose example_dmat] ! 0) (0, 1) = entry (dmats (example_element 2) ! 0) (1, 0)
    \<and> fst (dmats_product (2, 2) 0 0 [numpy_transpose example_dmat]
             (update_dmats (2, 2) (mat_identity, mat_identity))) (0, 1)
        = (\<Sum>s<2. entry (numpy_transpose (dmats (example_element 2) ! 0)) (0, s)
                  * mat_identity (s, 1))
    \<and> fst (dmats_product (2, 2) 0 0 [numpy_transpose example_dmat]
             (update_dmats (2, 2) (mat_identity, mat_identity))) (0, 1)
        = (\<Sum>s<2. entry (dmats (example_element 2) ! 0) (s, 0) * mat_identity (s, 1))"
proof -
  have h1: "tabulate_dmats (example_element 2) = Inr [numpy_transpose example_dmat]"
    by (simp add: tabulate_dmats_def example_element_def example_dmat_def numpy_transpose_def)
  have h2: "0 < length (dmats (example_element 2))"
    by (simp add: example_element_def)
  have h3: "2 = num_expansion_members (example_element 2)"
    by (simp add: example_element_def)
  have h4: "(0::nat) < 2" and h5: "(1::nat) < 2" by simp_all
  show ?thesis
    by (rule tabulated_dmats_transposed [OF h1 h2 h3 h4 h5])
qed

subsection \<open>C1: the chain of differentiation matrices and the reference values\<close>

text \<open>
  C1 (amended). For every combination \<open>r\<close> the accumulator that \<^verbatim>\<open>_compute_dmats\<close> leaves
  does not depend on what the accumulator held before: it is the chain that starts from
  the identity and, for the digits of the combination in turn, multiplies from the left
  by the table of the digit, which is the transpose of the matrix \<open>dmats\<close> of that
  direction. So the operator is \<open>dmats[c_{n-1}]\<^sup>T \<cdot> \<dots> \<cdot> dmats[c_0]\<^sup>T\<close>. The sums of \<^verbatim>\<open>lines_c\<close>
  then put into the zero entry of component \<open>c\<close> and combination \<open>r\<close> the double sum of
  coefficient, operator and basis value.
\<close>

theorem reference_derivative_engine:
  assumes "tabulate_dmats data = Inr tables"
    and "m = num_expansion_members data"
    and "\<And>s. s < derivative_order vars \<Longrightarrow>
           derivative_combinations vars ! r ! s < length (dmats data)"
    and "r < num_derivatives vars" and "c < nc" and "t < m" and "u < m"
  shows "fst (compute_dmats (length (dmats data)) (m, m) tables vars r state) (t, u)
      = spec_chain m (\<lambda>i. entry (numpy_transpose (dmats data ! i)))
          (map (\<lambda>s. derivative_combinations vars ! r ! s) [0..<derivative_order vars]) (t, u)
    \<and> reference_value_lines data nc (m, m) vars r
          (fst (compute_dmats (length (dmats data)) (m, m) tables vars r state)) (\<lambda>x. 0)
          (c * num_derivatives vars + r)
      = spec_reference_value m (entry (coefficients data ! c)) (local_dof vars)
          (spec_chain m (\<lambda>i. entry (numpy_transpose (dmats data ! i)))
             (map (\<lambda>s. derivative_combinations vars ! r ! s) [0..<derivative_order vars]))
          (basisvalues vars data)"
proof -
  let ?digits = "map (\<lambda>s. derivative_combinations vars ! r ! s) [0..<derivative_order vars]"
  let ?D = "fst (compute_dmats (length (dmats data)) (m, m) tables vars r state)"
  let ?chain = "spec_chain m (\<lambda>i. entry (numpy_transpose (dmats data ! i))) ?digits"
  have tables: "tables = map numpy_transpose (dmats data)"
    using assms(1) by (rule tabulate_dmats_Inr)
  have "spec_chain m (\<lambda>c. entry (tables ! c)) ?digits = ?chain"
    using assms(3) by (intro spec_chain_cong) (auto simp: tables)
  then have D: "?D (s, t) = ?chain (s, t)" if "s < m" "t < m" for s t
    using compute_dmats_chain [of vars r "length (dmats data)" s m t tables state] assms(3) that
    by simp
  have "reference_value_lines data nc (m, m) vars r ?D (\<lambda>x. 0) (c * num_derivatives vars + r)
      = (\<Sum>s<m. \<Sum>t<m. entry (coefficients data ! c) (local_dof vars, s) * ?D (s, t)
                 * basisvalues vars data t)"
    using assms(4,5)
    by (simp add: reference_value_lines_closed sum_cells tabulate_coefficients_def)
  also have "\<dots> = (\<Sum>s<m. \<Sum>t<m. entry (coefficients data ! c) (local_dof vars, s)
                 * ?chain (s, t) * basisvalues vars data t)"
    by (intro sum.cong refl) (simp add: D)
  finally show ?thesis
    using D [OF assms(6,7)] by (simp add: spec_reference_value_def)
qed

theorem reference_derivative_engine_witness:
  "fst (compute_dmats (length (dmats (example_element 2))) (2, 2) [numpy_transpose example_dmat]
          (prepared 1 (example_variables 0 1)) 0 (mat_identity, mat_identity)) (0, 1)
      = spec_chain 2 (\<lambda>i. entry (numpy_transpose (dmats (example_element 2) ! i)))
          (map (\<lambda>s. derivative_combinations (prepared 1 (example_variables 0 1)) ! 0 ! s)
             [0..<derivative_order (prepared 1 (example_variables 0 1))]) (0, 1)
    \<and> reference_value_lines (example_element 2) 1 (2, 2) (prepared 1 (example_variables 0 1)) 0
          (fst (compute_dmats (length (dmats (example_element 2))) (2, 2)
                  [numpy_transpose example_dmat] (prepared 1 (example_variables 0 1)) 0
                  (mat_identity, mat_identity))) (\<lambda>x. 0)
          (0 * num_derivatives (prepared 1 (example_variables 0 1)) + 0)
      = spec_reference_value 2 (entry (coefficients (example_element 2) ! 0))
          (local_dof (prepared 1 (example_variables 0 1)))
          (spec_chain 2 (\<lambda>i. entry (numpy_transpose (dmats (example_element 2) ! i)))
             (map (\<lambda>s. derivative_combinations (prepared 1 (example_variables 0 1)) ! 0 ! s)
                [0..<derivative_order (prepared 1 (example_variables 0 1))]))
          (basisvalues (prepared 1 (example_variables 0 1)) (example_element 2))"
proof -
  have h2: "2 = num_expansion_members (example_element 2)"
    by (simp add: example_element_def)
  have h3: "\<And>s. s < derivative_order (prepared 1 (example_variables 0 1)) \<Longrightarrow>
      derivative_combinations (prepared 1 (example_variables 0 1)) ! 0 ! s
        < length (dmats (example_element 2))"
    by (simp add: example_prepared example_element_def)
  have h4: "0 < num_derivatives (prepared 1 (example_variables 0 1))"
    by (simp add: example_prepared)
  have h5: "(0::nat) < 1" and h6: "(0::nat) < 2" and h7: "(1::nat) < 2" by simp_all
  show ?thesis
    by (rule reference_derivative_engine [OF example_tables h2 h3 h4 h5 h6 h7])
qed

text \<open>
  C1 as stated fails: for the example element and the combination with the single
  digit 0 the accumulator holds 3 at \<open>(0, 1)\<close>, where the product of the matrices \<open>dmats\<close>
  themselves holds 0.
\<close>

theorem reference_derivative_engine_counterexample:
  "derivative_combinations (prepared 1 (example_variables 0 1)) ! 0 = [0]
    \<and> fst (compute_dmats (length (dmats (example_element 2))) (2, 2)
             [numpy_transpose example_dmat] (prepared 1 (example_variables 0 1)) 0
             (mat_identity, mat_identity)) (0, 1) = 3
    \<and> spec_chain 2 (\<lambda>i. entry (dmats (example_element 2) ! i)) [0] (0, 1) = 0"
proof -
  let ?V = "prepared 1 (example_variables 0 1)"
  have "fst (compute_dmats (length (dmats (example_element 2))) (2, 2)
             [numpy_transpose example_dmat] ?V 0 (mat_identity, mat_identity)) (0, 1)
      = spec_chain 2 (\<lambda>c. entry ([numpy_transpose example_dmat] ! c))
          (map (\<lambda>s. derivative_combinations ?V ! 0 ! s) [0..<derivative_order ?V]) (0, 1)"
    by (rule compute_dmats_chain) (simp_all add: example_prepared example_element_def)
  also have "\<dots> = 3"
    by (simp add: example_prepared spec_chain_def mat_mul_def mat_identity_def
                  numpy_transpose_def example_dmat_def lessThan_Suc numeral_2_eq_2)
  finally have "fst (compute_dmats (length (dmats (example_element 2))) (2, 2)
             [numpy_transpose example_dmat] ?V 0 (mat_identity, mat_identity)) (0, 1) = 3" .
  moreover have "spec_chain 2 (\<lambda>i. entry (dmats (example_element 2) ! i)) [0] (0, 1) = 0"
    by (simp add: spec_chain_def mat_mul_def mat_identity_def example_element_def
                  example_dmat_def lessThan_Suc numeral_2_eq_2)
  moreover have "derivative_combinations ?V ! 0 = [0]"
    by (simp add: prepared_simps example_variables_def generate_combinations_rows digit_row_def)
  ultimately show ?thesis by blast
qed

subsection \<open>C6: the mixing of the components\<close>

text \<open>
  C6. The mapping of an element that has a procedure is one of the three kinds. After
  the loop over the combinations, the entry of \<^verbatim>\<open>derivatives\<close> for component \<open>i\<close> and
  combination \<open>r\<close> is, for every \<open>r\<close> alike: the reference value itself if the mapping is
  affine; the inverse of the determinant times the sum over \<open>j\<close> of \<open>J[i][j]\<close> times the
  reference value of component \<open>j\<close> if it is contravariant Piola; the sum over \<open>j\<close> of
  \<open>Jinv[j][i]\<close> times the reference value of component \<open>j\<close> if it is covariant Piola.
\<close>

theorem component_mixing:
  assumes "tabulate_dmats data = Inr tables"
    and "compute_reference_derivatives data tables = Inr reference_code"
    and "num_components data = Inr nc"
    and "\<And>r s. r < num_derivatives vars \<Longrightarrow> s < derivative_order vars \<Longrightarrow>
           derivative_combinations vars ! r ! s < length (dmats data)"
    and "r < num_derivatives vars" and "i < nc"
  shows "mapping data \<in> set [''affine'', ''contravariant piola'', ''covariant piola'']
    \<and> reference_code vars (i * num_derivatives vars + r)
      = (if mapping data = ''affine''
           then reference_value data (dmats_tables data) vars i r
         else if mapping data = ''contravariant piola''
           then (1 / det_jacobian vars)
                  * (\<Sum>j<topological_dimension data.
                       jacobian vars (i, j) * reference_value data (dmats_tables data) vars j r)
         else (\<Sum>j<topological_dimension data.
                 jacobian_inverse vars (j, i) * reference_value data (dmats_tables data) vars j r))"
proof -
  have tables: "tables = map numpy_transpose (dmats data)"
    using assms(1) by (rule tabulate_dmats_Inr)
  have "\<exists>mapping_code. mapping_lines data nc = Inr mapping_code"
    using assms(2,3)
    by (cases "mapping_lines data nc")
       (auto simp: compute_reference_derivatives_def split: list.splits)
  then have kind: "mapping data \<in> set [''affine'', ''contravariant piola'', ''covariant piola'']"
    by (auto simp: mapping_lines_def split: if_splits)
  have "reference_code vars (i * num_derivatives vars + r)
      = spec_mapped_value data vars (\<lambda>k. reference_value data (dmats_tables data) vars k r) i"
    using compute_reference_derivatives_closed
            [OF assms(2,3) tabulate_dmats_Inr(2) [OF assms(1)] assms(4,5,6)]
    by (simp add: tables dmats_tables_def [abs_def])
  then show ?thesis
    using kind by (simp add: spec_mapped_value_def)
qed

theorem component_mixing_witness:
  "mapping example_piola \<in> set [''affine'', ''contravariant piola'', ''covariant piola'']
    \<and> projr (compute_reference_derivatives example_piola [numpy_transpose example_dmat])
        (prepared 1 (example_variables 0 1))
        (0 * num_derivatives (prepared 1 (example_variables 0 1)) + 0)
      = (if mapping example_piola = ''affine''
           then reference_value example_piola (dmats_tables example_piola)
                  (prepared 1 (example_variables 0 1)) 0 0
         else if mapping example_piola = ''contravariant piola''
           then (1 / det_jacobian (prepared 1 (example_variables 0 1)))
                  * (\<Sum>j<topological_dimension example_piola.
                       jacobian (prepared 1 (example_variables 0 1)) (0, j)
                       * reference_value example_piola (dmats_tables example_piola)
                           (prepared 1 (example_variables 0 1)) j 0)
         else (\<Sum>j<topological_dimension example_piola.
                 jacobian_inverse (prepared 1 (example_variables 0 1)) (j, 0)
                 * reference_value example_piola (dmats_tables example_piola)
                     (prepared 1 (example_variables 0 1)) j 0))"
proof -
  have h3: "num_components example_piola = Inr 1"
    by (simp add: num_components_def example_piola_def example_element_def)
  have h4: "\<And>r s. r < num_derivatives (prepared 1 (example_variables 0 1)) \<Longrightarrow>
      s < derivative_order (prepared 1 (example_variables 0 1)) \<Longrightarrow>
      derivative_combinations (prepared 1 (example_variables 0 1)) ! r ! s
        < length (dmats example_piola)"
    by (simp add: example_prepared example_piola_def example_element_def)
  have h5: "0 < num_derivatives (prepared 1 (example_variables 0 1))"
    by (simp add: example_prepared)
  have h6: "(0::nat) < 1" by simp
  show ?thesis
    by (rule component_mixing [OF example_piola_tables example_piola_reference h3 h4 h5 h6])
qed

subsection \<open>C2: the derivatives on the physical element\<close>

text \<open>
  C2. For the sub-element that owns the dof, a component \<open>c\<close> of it and a combination
  \<open>r\<close>: the text of \<^verbatim>\<open>_transform_derivatives\<close> adds to the entry of \<^verbatim>\<open>values\<close> for that
  component and combination the sum over \<open>r'\<close> of the transformation matrix at \<open>(r, r')\<close>
  times the reference derivative of the component for \<open>r'\<close>, whatever the entry held; the
  transformation matrix at \<open>(r, r')\<close> is the product over \<open>k < n\<close> of the inverse Jacobian at
  \<open>(combinations[r][k], combinations[r'][k])\<close>; \<^verbatim>\<open>_reset_values\<close>, which runs once before the
  code of the elements, leaves zero in the entry; and so the procedure returns in the
  entry the sum over \<open>r'\<close> of the matrix times the mapped reference value, whatever the
  caller's array held.
\<close>

theorem physical_derivative_assembly:
  assumes "evaluate_basis_derivatives (Inr data_list) = Inr code"
    and "j < length data_list"
    and "dof_offset data_list j \<le> basis_num vars"
    and "basis_num vars < dof_offset data_list j + space_dimension (data_list ! j)"
    and "num_components (data_list ! j) = Inr nc"
    and "topological_dimension (hd data_list) \<le> length (dmats (data_list ! j))"
    and "c < nc" and "r < topological_dimension (hd data_list) ^ derivative_order vars"
    and "d = topological_dimension (hd data_list)"
    and "V = map_dof (dof_offset data_list j) (prepared d vars)"
  shows "(\<exists>transform_code.
            transform_derivatives (data_list ! j) (value_offset data_list j) = Inr transform_code
          \<and> (\<forall>derivatives buffer.
               transform_code V derivatives buffer
                 ((value_offset data_list j + c) * d ^ derivative_order vars + r)
               = buffer ((value_offset data_list j + c) * d ^ derivative_order vars + r)
                 + (\<Sum>r'<d ^ derivative_order vars.
                      transform_matrix V (r, r')
                      * derivatives (c * d ^ derivative_order vars + r'))))
    \<and> transform_matrix V (r, r')
        = (\<Prod>k<derivative_order vars. jacobian_inverse vars
             (derivative_combinations V ! r ! k, derivative_combinations V ! r' ! k))
    \<and> reset_values data_list (prepared d vars) buffer
         ((value_offset data_list j + c) * d ^ derivative_order vars + r) = 0
    \<and> code vars buffer ((value_offset data_list j + c) * d ^ derivative_order vars + r)
        = (\<Sum>r'<d ^ derivative_order vars.
             transform_matrix V (r, r')
             * spec_mapped_value (data_list ! j) V
                 (\<lambda>k. reference_value (data_list ! j) (dmats_tables (data_list ! j)) V k r') c)"
proof -
  let ?N = "d ^ derivative_order vars"
  let ?cell = "(value_offset data_list j + c) * ?N + r"
  have N: "num_derivatives V = ?N"
    by (simp add: assms(10) map_dof_simps prepared_simps)
  have r: "r < ?N" using assms(8,9) by simp
  obtain code_j where
    "generate_element_code (data_list ! j) (value_offset data_list j) = Inr code_j"
    using evaluate_basis_derivatives_element [OF assms(1,2)] by blast
  then obtain transform_code where
    tr: "transform_derivatives (data_list ! j) (value_offset data_list j) = Inr transform_code"
    by (rule generate_element_code_parts)
  have "transform_code V derivatives buffer ?cell
      = buffer ?cell + (\<Sum>r'<?N. transform_matrix V (r, r') * derivatives (c * ?N + r'))"
    for derivatives buffer
    unfolding transform_derivatives_closed [OF tr assms(5)] N
    using sum_cells_offset [OF r, where nc = nc and b = "value_offset data_list j" and j = c]
          assms(7)
    by simp
  with tr have part1: "\<exists>transform_code.
            transform_derivatives (data_list ! j) (value_offset data_list j) = Inr transform_code
          \<and> (\<forall>derivatives buffer. transform_code V derivatives buffer ?cell
               = buffer ?cell
                 + (\<Sum>r'<?N. transform_matrix V (r, r') * derivatives (c * ?N + r')))"
    by blast
  have part2: "transform_matrix V (r, r')
        = (\<Prod>k<derivative_order vars. jacobian_inverse vars
             (derivative_combinations V ! r ! k, derivative_combinations V ! r' ! k))"
    unfolding assms(10) transform_matrix_prepared
    by (simp add: map_dof_simps prepared_simps)
  have "value_offset data_list j + c < total_value_shape data_list"
    using value_offset_bound [OF assms(2)] num_components_value_dim [OF assms(5)] assms(7)
    by simp
  then have "?cell < total_value_shape data_list * ?N"
    using r by (rule cell_in_region)
  then have part3: "reset_values data_list (prepared d vars) buffer ?cell = 0"
    by (simp add: reset_values_closed prepared_simps)
  have part4: "code vars buffer ?cell
        = (\<Sum>r'<?N. transform_matrix V (r, r')
             * spec_mapped_value (data_list ! j) V
                 (\<lambda>k. reference_value (data_list ! j) (dmats_tables (data_list ! j)) V k r') c)"
    using evaluate_basis_derivatives_value [OF assms(1-8), of buffer]
    by (simp add: assms(9,10) physical_value_def map_dof_simps prepared_simps)
  from part1 part2 part3 part4 show ?thesis by blast
qed

theorem physical_derivative_assembly_witness:
  "(\<exists>transform_code.
      transform_derivatives ([example_element 2] ! 0) (value_offset [example_element 2] 0)
        = Inr transform_code
      \<and> (\<forall>derivatives buffer.
           transform_code (map_dof 0 (prepared 1 (example_variables 0 1))) derivatives buffer
             ((value_offset [example_element 2] 0 + 0)
                * 1 ^ derivative_order (example_variables 0 1) + 0)
           = buffer ((value_offset [example_element 2] 0 + 0)
                * 1 ^ derivative_order (example_variables 0 1) + 0)
             + (\<Sum>r'<1 ^ derivative_order (example_variables 0 1).
                  transform_matrix (map_dof 0 (prepared 1 (example_variables 0 1))) (0, r')
                  * derivatives (0 * 1 ^ derivative_order (example_variables 0 1) + r'))))
    \<and> transform_matrix (map_dof 0 (prepared 1 (example_variables 0 1))) (0, 0)
        = (\<Prod>k<derivative_order (example_variables 0 1).
             jacobian_inverse (example_variables 0 1)
               (derivative_combinations (map_dof 0 (prepared 1 (example_variables 0 1))) ! 0 ! k,
                derivative_combinations (map_dof 0 (prepared 1 (example_variables 0 1))) ! 0 ! k))
    \<and> reset_values [example_element 2] (prepared 1 (example_variables 0 1)) (\<lambda>x. 7)
         ((value_offset [example_element 2] 0 + 0)
            * 1 ^ derivative_order (example_variables 0 1) + 0) = 0
    \<and> projr (evaluate_basis_derivatives (Inr [example_element 2])) (example_variables 0 1)
         (\<lambda>x. 7)
         ((value_offset [example_element 2] 0 + 0)
            * 1 ^ derivative_order (example_variables 0 1) + 0)
        = (\<Sum>r'<1 ^ derivative_order (example_variables 0 1).
             transform_matrix (map_dof 0 (prepared 1 (example_variables 0 1))) (0, r')
             * spec_mapped_value ([example_element 2] ! 0)
                 (map_dof 0 (prepared 1 (example_variables 0 1)))
                 (\<lambda>k. reference_value ([example_element 2] ! 0)
                        (dmats_tables ([example_element 2] ! 0))
                        (map_dof 0 (prepared 1 (example_variables 0 1))) k r') 0)"
proof -
  have h2: "0 < length [example_element 2]" by simp
  have h3: "dof_offset [example_element 2] 0 \<le> basis_num (example_variables 0 1)"
    by (simp add: dof_offset_def)
  have h4: "basis_num (example_variables 0 1)
      < dof_offset [example_element 2] 0 + space_dimension ([example_element 2] ! 0)"
    by (simp add: dof_offset_def example_variables_def example_element_def)
  have h5: "num_components ([example_element 2] ! 0) = Inr 1"
    by (simp add: example_num_components)
  have h6: "topological_dimension (hd [example_element 2])
      \<le> length (dmats ([example_element 2] ! 0))"
    by (simp add: example_element_def)
  have h7: "(0::nat) < 1" by simp
  have h8: "0 < topological_dimension (hd [example_element 2])
                  ^ derivative_order (example_variables 0 1)"
    by (simp add: example_element_def)
  have h9: "1 = topological_dimension (hd [example_element 2])"
    by (simp add: example_element_def)
  have h10: "map_dof 0 (prepared 1 (example_variables 0 1))
      = map_dof (dof_offset [example_element 2] 0) (prepared 1 (example_variables 0 1))"
    by (simp add: dof_offset_def)
  show ?thesis
    by (rule physical_derivative_assembly [OF example_evaluate h2 h3 h4 h5 h6 h7 h8 h9 h10])
qed

subsection \<open>C3: the routing of a dof to its sub-element\<close>

text \<open>
  C3 (amended). For a mixed element, a global dof inside the half-open range of dofs
  of sub-element \<open>j\<close> runs the code of exactly that sub-element, generated for the
  value-component offset of the sub-element, on the reset array and with the local dof
  equal to the global dof minus the dof offset. A global dof at or beyond the total
  space dimension passes no test: no sub-element runs, the procedure returns the reset
  array, and no error is reported.
\<close>

theorem mixed_element_dispatch:
  assumes "evaluate_basis_derivatives (Inr data_list) = Inr code"
    and "2 \<le> length data_list"
    and "d = topological_dimension (hd data_list)"
  shows "(j < length data_list \<and> dof_offset data_list j \<le> basis_num vars
          \<and> basis_num vars < dof_offset data_list j + space_dimension (data_list ! j)
          \<longrightarrow> (\<exists>code_j.
                 generate_element_code (data_list ! j) (value_offset data_list j) = Inr code_j
                 \<and> code vars buffer
                     = code_j (map_dof (dof_offset data_list j) (prepared d vars))
                         (reset_values data_list (prepared d vars) buffer))
              \<and> local_dof (map_dof (dof_offset data_list j) (prepared d vars))
                  = basis_num vars - dof_offset data_list j)
    \<and> (total_space_dimension data_list \<le> basis_num vars
          \<longrightarrow> code vars buffer = reset_values data_list (prepared d vars) buffer)"
proof (intro conjI impI)
  assume range: "j < length data_list \<and> dof_offset data_list j \<le> basis_num vars
          \<and> basis_num vars < dof_offset data_list j + space_dimension (data_list ! j)"
  then show "\<exists>code_j.
                 generate_element_code (data_list ! j) (value_offset data_list j) = Inr code_j
                 \<and> code vars buffer
                     = code_j (map_dof (dof_offset data_list j) (prepared d vars))
                         (reset_values data_list (prepared d vars) buffer)"
    using evaluate_basis_derivatives_dispatch [OF assms(1), of j vars buffer]
    by (simp add: assms(3))
  show "local_dof (map_dof (dof_offset data_list j) (prepared d vars))
          = basis_num vars - dof_offset data_list j"
    by (simp add: map_dof_simps prepared_simps)
next
  assume "total_space_dimension data_list \<le> basis_num vars"
  with assms(1,2) show "code vars buffer = reset_values data_list (prepared d vars) buffer"
    unfolding assms(3) by (rule evaluate_basis_derivatives_outside)
qed

theorem mixed_element_dispatch_witness:
  "(\<exists>code_j.
       generate_element_code (example_mixed ! 1) (value_offset example_mixed 1) = Inr code_j
       \<and> projr (evaluate_basis_derivatives (Inr example_mixed)) (example_variables 5 1) (\<lambda>x. 7)
           = code_j (map_dof (dof_offset example_mixed 1) (prepared 1 (example_variables 5 1)))
               (reset_values example_mixed (prepared 1 (example_variables 5 1)) (\<lambda>x. 7)))
    \<and> local_dof (map_dof (dof_offset example_mixed 1) (prepared 1 (example_variables 5 1)))
        = basis_num (example_variables 5 1) - dof_offset example_mixed 1
    \<and> basis_num (example_variables 5 1) - dof_offset example_mixed 1 = 2
    \<and> value_offset example_mixed 1 = 1"
proof -
  have h2: "2 \<le> length example_mixed" by (simp add: example_mixed_offsets)
  have h3: "1 = topological_dimension (hd example_mixed)" by (simp add: example_mixed_offsets)
  have range: "1 < length example_mixed
      \<and> dof_offset example_mixed 1 \<le> basis_num (example_variables 5 1)
      \<and> basis_num (example_variables 5 1)
          < dof_offset example_mixed 1 + space_dimension (example_mixed ! 1)"
    by (simp add: example_mixed_offsets example_variables_def)
  have "basis_num (example_variables 5 1) - dof_offset example_mixed 1 = 2"
    by (simp add: example_mixed_offsets example_variables_def)
  moreover have "value_offset example_mixed 1 = 1"
    by (simp add: example_mixed_offsets)
  ultimately show ?thesis
    using mixed_element_dispatch [OF example_mixed_evaluate h2 h3, of 1 "example_variables 5 1"
                                    "\<lambda>x. 7"] range
    by blast
qed

text \<open>
  C3 as stated fails: for the sub-elements with 3, 4 and 2 dofs the dof 9 is outside
  all ranges, and the procedure exists, reports nothing and returns the array with its
  three entries set to zero and the rest as the caller left it.
\<close>

theorem mixed_element_dispatch_counterexample:
  "total_space_dimension example_mixed = 9
    \<and> evaluate_basis_derivatives (Inr example_mixed)
        = Inr (projr (evaluate_basis_derivatives (Inr example_mixed)))
    \<and> projr (evaluate_basis_derivatives (Inr example_mixed)) (example_variables 9 1) (\<lambda>x. 7)
        = (\<lambda>x. if x < 3 then 0 else 7)"
proof -
  have "projr (evaluate_basis_derivatives (Inr example_mixed)) (example_variables 9 1) (\<lambda>x. 7)
      = reset_values example_mixed
          (prepared (topological_dimension (hd example_mixed)) (example_variables 9 1)) (\<lambda>x. 7)"
    using example_mixed_evaluate
    by (rule evaluate_basis_derivatives_outside)
       (simp_all add: example_mixed_offsets example_variables_def)
  also have "\<dots> = (\<lambda>x. if x < 3 then 0 else 7)"
    by (simp add: reset_values_closed example_mixed_offsets prepared_simps example_variables_def)
  finally show ?thesis
    using example_mixed_evaluate by (simp add: example_mixed_offsets)
qed

subsection \<open>C4: the values at order 0\<close>

text \<open>
  C4 (amended). At order 0 there is one combination, the chain of matrices stays the
  identity and the transformation matrix is the number 1, so the value that the
  procedure returns for a component of the sub-element that owns the dof is the plain
  basis value with the component mixing of the element applied: the plain value itself
  for an affine element, the Piola transform of the plain values of the components for
  a Piola element.
\<close>

theorem order_zero_evaluation:
  assumes "evaluate_basis_derivatives (Inr data_list) = Inr code"
    and "j < length data_list"
    and "dof_offset data_list j \<le> basis_num vars"
    and "basis_num vars < dof_offset data_list j + space_dimension (data_list ! j)"
    and "num_components (data_list ! j) = Inr nc"
    and "c < nc" and "derivative_order vars = 0"
    and "dof = basis_num vars - dof_offset data_list j"
  shows "code vars buffer (value_offset data_list j + c)
     = (if mapping (data_list ! j) = ''affine''
          then plain_basis_value (data_list ! j) vars c dof
        else if mapping (data_list ! j) = ''contravariant piola''
          then (1 / det_jacobian vars)
                 * (\<Sum>i<topological_dimension (data_list ! j).
                      jacobian vars (c, i) * plain_basis_value (data_list ! j) vars i dof)
        else (\<Sum>i<topological_dimension (data_list ! j).
                jacobian_inverse vars (i, c) * plain_basis_value (data_list ! j) vars i dof))"
  using order_zero_value [OF assms(1-7), of buffer]
  by (simp add: spec_mapped_value_def assms(8))

theorem order_zero_evaluation_witness:
  "projr (evaluate_basis_derivatives (Inr [example_element 2])) (example_variables 1 0) (\<lambda>x. 7)
     (value_offset [example_element 2] 0 + 0)
     = (if mapping ([example_element 2] ! 0) = ''affine''
          then plain_basis_value ([example_element 2] ! 0) (example_variables 1 0) 0 1
        else if mapping ([example_element 2] ! 0) = ''contravariant piola''
          then (1 / det_jacobian (example_variables 1 0))
                 * (\<Sum>i<topological_dimension ([example_element 2] ! 0).
                      jacobian (example_variables 1 0) (0, i)
                      * plain_basis_value ([example_element 2] ! 0) (example_variables 1 0) i 1)
        else (\<Sum>i<topological_dimension ([example_element 2] ! 0).
                jacobian_inverse (example_variables 1 0) (i, 0)
                * plain_basis_value ([example_element 2] ! 0) (example_variables 1 0) i 1))"
proof -
  have h2: "0 < length [example_element 2]" by simp
  have h3: "dof_offset [example_element 2] 0 \<le> basis_num (example_variables 1 0)"
    by (simp add: dof_offset_def)
  have h4: "basis_num (example_variables 1 0)
      < dof_offset [example_element 2] 0 + space_dimension ([example_element 2] ! 0)"
    by (simp add: dof_offset_def example_variables_def example_element_def)
  have h5: "num_components ([example_element 2] ! 0) = Inr 1"
    by (simp add: example_num_components)
  have h6: "(0::nat) < 1" by simp
  have h7: "derivative_order (example_variables 1 0) = 0"
    by (simp add: example_variables_def)
  have h8: "1 = basis_num (example_variables 1 0) - dof_offset [example_element 2] 0"
    by (simp add: dof_offset_def example_variables_def)
  show ?thesis
    by (rule order_zero_evaluation [OF example_evaluate h2 h3 h4 h5 h6 h7 h8])
qed

text \<open>
  C4 as stated fails: for the example element with the covariant Piola mapping and the
  Jacobian 2, the plain value of the basis function of dof 0 is 1, and the procedure
  returns one half at order 0.
\<close>

theorem order_zero_evaluation_counterexample:
  "plain_basis_value example_piola (example_variables 0 0) 0 0 = 1
    \<and> projr (evaluate_basis_derivatives (Inr [example_piola])) (example_variables 0 0) (\<lambda>x. 7) 0
        = 1 / 2"
proof -
  have plain: "plain_basis_value example_piola (example_variables 0 0) 0 0 = 1"
    by (simp add: plain_basis_value_def example_piola_def example_element_def
                  example_coefficients_def example_variables_def lessThan_Suc numeral_2_eq_2)
  have "projr (evaluate_basis_derivatives (Inr [example_piola])) (example_variables 0 0) (\<lambda>x. 7)
          (value_offset [example_piola] 0 + 0)
      = spec_mapped_value ([example_piola] ! 0) (example_variables 0 0)
         (\<lambda>k. plain_basis_value ([example_piola] ! 0) (example_variables 0 0) k
                 (basis_num (example_variables 0 0) - dof_offset [example_piola] 0)) 0"
  proof (rule order_zero_value [OF example_piola_evaluate])
    show "0 < length [example_piola]" by simp
    show "dof_offset [example_piola] 0 \<le> basis_num (example_variables 0 0)"
      by (simp add: dof_offset_def)
    show "basis_num (example_variables 0 0)
        < dof_offset [example_piola] 0 + space_dimension ([example_piola] ! 0)"
      by (simp add: dof_offset_def example_variables_def example_piola_def example_element_def)
    show "num_components ([example_piola] ! 0) = Inr 1"
      by (simp add: num_components_def example_piola_def example_element_def)
    show "(0::nat) < 1" by simp
    show "derivative_order (example_variables 0 0) = 0"
      by (simp add: example_variables_def)
  qed
  also have "\<dots> = 1 / 2"
    using plain
    by (simp add: spec_mapped_value_def dof_offset_def)
       (simp add: example_piola_def example_element_def example_variables_def)
  finally show ?thesis
    using plain by (simp add: value_offset_def)
qed

subsection \<open>C7: the layout of the values of all dofs\<close>

text \<open>
  C7. For every dof \<open>i\<close> below the total space dimension \<open>S\<close>, every component \<open>c\<close> below
  the total number of components \<open>C\<close> and every combination \<open>r\<close> below \<open>N = d\<^sup>n\<close>, the
  procedure for all dofs leaves at the index \<open>i * C * N + c * N + r\<close> of its array the
  value that the procedure for one dof returns for dof \<open>i\<close> at the index \<open>c * N + r\<close>,
  whatever buffer that procedure is given.
\<close>

theorem all_dofs_layout:
  assumes "evaluate_basis_derivatives_all (Inr data_list) = Inr all_code"
    and "evaluate_basis_derivatives (Inr data_list) = Inr code"
    and "S = total_space_dimension data_list"
    and "C = total_value_shape data_list"
    and "N = topological_dimension (hd data_list) ^ derivative_order vars"
    and "i < S" and "c < C" and "r < N"
  shows "all_code vars out (i * (C * N) + (c * N + r))
     = code (vars\<lparr>basis_num := i\<rparr>) buffer (c * N + r)"
proof -
  obtain inc where inc: "\<And>vars buffer x.
      x < total_value_shape data_list
            * topological_dimension (hd data_list) ^ derivative_order vars
      \<Longrightarrow> code vars buffer x = inc vars x"
    using evaluate_basis_derivatives_region [OF assms(2)] by blast
  have indep: "code (vars\<lparr>basis_num := k\<rparr>) b s = code (vars\<lparr>basis_num := k\<rparr>) b' s"
    if "s < C * N" for k b b' s
    using inc [of s "vars\<lparr>basis_num := k\<rparr>"] that by (simp add: assms(4,5))
  have "0 + c < C" using assms(7) by simp
  then have "(0 + c) * N + r < C * N" using assms(8) by (rule cell_in_region)
  then have cell: "c * N + r < C * N" by simp
  show ?thesis
  proof (cases "total_space_dimension data_list = 1")
    case True
    then have "i = 0" using assms(3,6) by simp
    then show ?thesis
      using evaluate_basis_derivatives_all_parts(1) [OF assms(1,2) True]
            indep [OF cell, of 0 out buffer]
      by simp
  next
    case False
    show ?thesis
      unfolding evaluate_basis_derivatives_all_parts(2) [OF assms(1,2) False]
                assms(3,4,5) [symmetric]
      using indep assms(6) cell by (rule all_dofs_loop)
  qed
qed

theorem all_dofs_layout_witness:
  "projr (evaluate_basis_derivatives_all (Inr [example_element 2])) (example_variables 0 1)
     (\<lambda>x. 7) (1 * (1 * 1) + (0 * 1 + 0))
     = projr (evaluate_basis_derivatives (Inr [example_element 2]))
         ((example_variables 0 1)\<lparr>basis_num := 1\<rparr>) (\<lambda>x. 9) (0 * 1 + 0)"
proof -
  have h3: "2 = total_space_dimension [example_element 2]"
    by (simp add: total_space_dimension_def example_element_def)
  have h4: "1 = total_value_shape [example_element 2]"
    by (simp add: total_value_shape_def value_dim_of_def example_element_def)
  have h5: "1 = topological_dimension (hd [example_element 2])
                  ^ derivative_order (example_variables 0 1)"
    by (simp add: example_element_def)
  have h6: "(1::nat) < 2" and h7: "(0::nat) < 1" by simp_all
  show ?thesis
    by (rule all_dofs_layout [OF example_all_evaluate example_evaluate h3 h4 h5 h6 h7 h7])
qed

subsection \<open>C9: tensor-valued elements\<close>

text \<open>
  C9 (amended). An element whose value shape has two or more entries is not supported:
  both \<^verbatim>\<open>_compute_reference_derivatives\<close> and \<^verbatim>\<open>_transform_derivatives\<close> stop with the error
  "Tensor valued elements are not supported yet", so there is no code for the element
  and no procedure, for one dof or for all, for any list of elements that holds it. An
  affine element with a value shape of at most one entry, tables of the right shape and
  at least one differentiation matrix does have its code.
\<close>

theorem tensor_valued_rejected:
  assumes "j < length data_list" and "2 \<le> length (value_shape (data_list ! j))"
  shows "compute_reference_derivatives (data_list ! j) tables
           = Inl (Tensor_valued_not_supported (family (data_list ! j)))
    \<and> transform_derivatives (data_list ! j) sum_value_dim
           = Inl (Tensor_valued_not_supported (family (data_list ! j)))
    \<and> isl (generate_element_code (data_list ! j) sum_value_dim)
    \<and> isl (evaluate_basis_derivatives (Inr data_list))
    \<and> isl (evaluate_basis_derivatives_all (Inr data_list))
    \<and> (length (value_shape data) \<le> 1 \<and> \<not> isl (tabulate_dmats data) \<and> dmats data \<noteq> []
          \<and> mapping data = ''affine''
        \<longrightarrow> \<not> isl (generate_element_code data sum_value_dim))"
proof -
  have nc: "num_components (data_list ! j)
      = Inl (Tensor_valued_not_supported (family (data_list ! j)))"
    using assms(2) by (rule num_components_tensor)
  have ref: "compute_reference_derivatives (data_list ! j) tables
           = Inl (Tensor_valued_not_supported (family (data_list ! j)))"
    by (simp add: compute_reference_derivatives_def nc)
  have tr: "transform_derivatives (data_list ! j) sum_value_dim
           = Inl (Tensor_valued_not_supported (family (data_list ! j)))"
    by (simp add: transform_derivatives_def nc)
  have gen: "isl (generate_element_code (data_list ! j) svd)" for svd
    using generate_element_code_shape [of "data_list ! j" svd] assms(2)
    by (cases "generate_element_code (data_list ! j) svd") auto
  have ev: "isl (evaluate_basis_derivatives (Inr data_list))"
  proof (cases "evaluate_basis_derivatives (Inr data_list)")
    case (Inl e)
    then show ?thesis by simp
  next
    case (Inr code)
    from evaluate_basis_derivatives_element [OF Inr assms(1)] gen [of "value_offset data_list j"]
    show ?thesis by auto
  qed
  have ok: "\<not> isl (generate_element_code data sum_value_dim)"
    if prem: "length (value_shape data) \<le> 1 \<and> \<not> isl (tabulate_dmats data) \<and> dmats data \<noteq> []
          \<and> mapping data = ''affine''"
  proof -
    obtain T where t: "tabulate_dmats data = Inr T"
      using prem by (cases "tabulate_dmats data") simp_all
    obtain k where k: "num_components data = Inr k"
      using prem by (cases "value_shape data") (auto simp: num_components_def)
    have ml: "mapping_lines data k = Inr (\<lambda>vars r derivatives. derivatives)"
      using prem by (simp add: mapping_lines_def)
    have dm: "dmats data \<noteq> []" using prem by simp
    from k t dm ml show ?thesis by (rule generate_element_code_ok)
  qed
  from ref tr gen [of sum_value_dim] ev evaluate_basis_derivatives_all_Inl [OF ev] ok
  show ?thesis by blast
qed

theorem tensor_valued_rejected_witness:
  "compute_reference_derivatives ([example_tensor] ! 0) [numpy_transpose example_dmat]
           = Inl (Tensor_valued_not_supported (family ([example_tensor] ! 0)))
    \<and> transform_derivatives ([example_tensor] ! 0) 0
           = Inl (Tensor_valued_not_supported (family ([example_tensor] ! 0)))
    \<and> isl (generate_element_code ([example_tensor] ! 0) 0)
    \<and> isl (evaluate_basis_derivatives (Inr [example_tensor]))
    \<and> isl (evaluate_basis_derivatives_all (Inr [example_tensor]))
    \<and> \<not> isl (generate_element_code (example_element 2) 0)"
proof -
  have h1: "0 < length [example_tensor]" by simp
  have h2: "2 \<le> length (value_shape ([example_tensor] ! 0))"
    by (simp add: example_tensor_def)
  have ok: "length (value_shape (example_element 2)) \<le> 1
      \<and> \<not> isl (tabulate_dmats (example_element 2)) \<and> dmats (example_element 2) \<noteq> []
      \<and> mapping (example_element 2) = ''affine''"
    by (simp add: example_tables) (simp add: example_element_def)
  show ?thesis
    using tensor_valued_rejected [OF h1 h2, of "[numpy_transpose example_dmat]" 0
                                    "example_element 2"] ok
    by blast
qed

text \<open>
  C9 as stated fails: for the example element with the value shape \<open>(2, 2)\<close> the
  generator of the procedure stops with the error.
\<close>

theorem tensor_valued_rejected_counterexample:
  "length (value_shape example_tensor) = 2
    \<and> evaluate_basis_derivatives (Inr [example_tensor])
        = Inl (Tensor_valued_not_supported ''Lagrange'')"
proof -
  have t: "tabulate_dmats example_tensor = Inr [numpy_transpose example_dmat]"
    by (simp add: tabulate_dmats_def example_tensor_def example_element_def example_dmat_def
                  numpy_transpose_def)
  have nc: "num_components example_tensor = Inl (Tensor_valued_not_supported ''Lagrange'')"
    by (simp add: num_components_def example_tensor_def example_element_def)
  have cd: "cell_domain example_tensor = ''interval''"
    by (simp add: example_tensor_def example_element_def)
  have "evaluate_basis_derivatives (Inr [example_tensor])
        = Inl (Tensor_valued_not_supported ''Lagrange'')"
    by (simp add: evaluate_basis_derivatives_def generate_transform_def cd
                  generate_element_code_def t compute_reference_derivatives_def nc)
  then show ?thesis
    by (simp add: example_tensor_def)
qed

subsection \<open>C8: elements with a single dof\<close>

text \<open>
  C8 (amended). For a single element with one dof the procedure for all dofs has no
  loop: it is the procedure for one dof, called for dof 0 on the array of the caller.
  The procedure for one dof has no case of its own for such an element: what it returns
  for a component and a combination is the physical value of the general path, with its
  combinations, its chain of matrices, its mapping and its transformation matrix. If
  all differentiation matrices of the element are zero, that value is zero at every
  order from 1 on.
\<close>

theorem constant_element_evaluation:
  assumes "evaluate_basis_derivatives_all (Inr [data]) = Inr all_code"
    and "evaluate_basis_derivatives (Inr [data]) = Inr code"
    and "space_dimension data = 1"
    and "num_components data = Inr nc"
    and "d = topological_dimension data" and "d \<le> length (dmats data)"
    and "c < nc" and "r < d ^ derivative_order vars"
    and "V = map_dof 0 (prepared d (vars\<lparr>basis_num := 0\<rparr>))"
  shows "all_code vars buffer = code (vars\<lparr>basis_num := 0\<rparr>) buffer
    \<and> code (vars\<lparr>basis_num := 0\<rparr>) buffer (c * d ^ derivative_order vars + r)
        = physical_value data V c r
    \<and> ((\<forall>i<length (dmats data). \<forall>x. entry (dmats data ! i) x = 0)
          \<and> 1 \<le> derivative_order vars
        \<longrightarrow> code (vars\<lparr>basis_num := 0\<rparr>) buffer (c * d ^ derivative_order vars + r) = 0)"
proof -
  let ?vars = "vars\<lparr>basis_num := 0\<rparr>"
  have "total_space_dimension [data] = 1"
    using assms(3) by (simp add: total_space_dimension_def)
  then have all: "all_code vars buffer = code ?vars buffer"
    using evaluate_basis_derivatives_all_parts(1) [OF assms(1,2)] by simp
  have val: "code ?vars buffer (c * d ^ derivative_order vars + r) = physical_value data V c r"
    using evaluate_basis_derivatives_value [of "[data]" code 0 ?vars nc c r buffer] assms
    by (simp add: dof_offset_def value_offset_def)
  have "physical_value data V c r = 0"
    if z: "(\<forall>i<length (dmats data). \<forall>x. entry (dmats data ! i) x = 0)
          \<and> 1 \<le> derivative_order vars"
  proof (rule physical_value_zero)
    show "entry (dmats data ! i) x = 0" if "i < length (dmats data)" for i x
      using z that by blast
    show "1 \<le> derivative_order V"
      using z by (simp add: assms(9) map_dof_simps prepared_simps)
    show "derivative_combinations V ! r ! s < length (dmats data)"
      if "r < num_derivatives V" "s < derivative_order V" for r s
      using prepared_digits [of r d ?vars s] that assms(6)
      by (simp add: assms(9) map_dof_simps)
  qed
  with all val show ?thesis by simp
qed

theorem constant_element_evaluation_witness:
  "projr (evaluate_basis_derivatives_all (Inr [example_constant])) (example_variables 0 1)
       (\<lambda>x. 7)
     = projr (evaluate_basis_derivatives (Inr [example_constant]))
         ((example_variables 0 1)\<lparr>basis_num := 0\<rparr>) (\<lambda>x. 7)
    \<and> projr (evaluate_basis_derivatives (Inr [example_constant]))
         ((example_variables 0 1)\<lparr>basis_num := 0\<rparr>) (\<lambda>x. 7)
         (0 * 1 ^ derivative_order (example_variables 0 1) + 0) = 0"
proof -
  have h3: "space_dimension example_constant = 1"
    and h4: "num_components example_constant = Inr 1"
    and h5: "1 = topological_dimension example_constant"
    and h6: "1 \<le> length (dmats example_constant)"
    by (simp_all add: example_constant_def num_components_def)
  have h7: "(0::nat) < 1" and h8: "0 < (1::nat) ^ derivative_order (example_variables 0 1)"
    by simp_all
  have zero: "(\<forall>i<length (dmats example_constant). \<forall>x. entry (dmats example_constant ! i) x = 0)
      \<and> 1 \<le> derivative_order (example_variables 0 1)"
    by (simp add: example_constant_def example_variables_def)
  show ?thesis
    using constant_element_evaluation
            [OF example_constant_all_evaluate example_constant_evaluate h3 h4 h5 h6 h7 h8 refl,
             of "\<lambda>x. 7"] zero
    by blast
qed

text \<open>
  C8 as stated fails: the example element with a single dof has a differentiation
  matrix that is not zero, and both procedures return 3 for its first derivative.
\<close>

theorem constant_element_evaluation_counterexample:
  "space_dimension (example_element 1) = 1
    \<and> projr (evaluate_basis_derivatives (Inr [example_element 1])) (example_variables 0 1)
         (\<lambda>x. 0) 0 = 3
    \<and> projr (evaluate_basis_derivatives_all (Inr [example_element 1])) (example_variables 0 1)
         (\<lambda>x. 0) 0 = 3"
proof -
  let ?E = "example_element (Suc 0)"
  let ?V = "map_dof 0 (prepared (Suc 0) (example_variables 0 (Suc 0)))"
  have "projr (evaluate_basis_derivatives (Inr [example_element 1])) (example_variables 0 1)
         (\<lambda>x. 0)
         ((value_offset [example_element 1] 0 + 0)
            * topological_dimension (hd [example_element 1])
                ^ derivative_order (example_variables 0 1) + 0)
      = physical_value ([example_element 1] ! 0)
          (map_dof (dof_offset [example_element 1] 0)
              (prepared (topological_dimension (hd [example_element 1]))
                 (example_variables 0 1))) 0 0"
  proof (rule evaluate_basis_derivatives_value [OF example_evaluate])
    show "0 < length [example_element 1]" by simp
    show "dof_offset [example_element 1] 0 \<le> basis_num (example_variables 0 1)"
      by (simp add: dof_offset_def)
    show "basis_num (example_variables 0 1)
        < dof_offset [example_element 1] 0 + space_dimension ([example_element 1] ! 0)"
      by (simp add: dof_offset_def example_variables_def example_element_simps)
    show "num_components ([example_element 1] ! 0) = Inr 1"
      by (simp add: example_num_components)
    show "topological_dimension (hd [example_element 1])
        \<le> length (dmats ([example_element 1] ! 0))"
      by (simp add: example_element_simps)
    show "(0::nat) < 1" by simp
    show "0 < topological_dimension (hd [example_element 1])
                ^ derivative_order (example_variables 0 1)"
      by (simp add: example_element_simps)
  qed
  then have pipeline: "projr (evaluate_basis_derivatives (Inr [?E])) (example_variables 0 (Suc 0))
      (\<lambda>x. 0) 0 = physical_value ?E ?V 0 0"
    by (simp add: value_offset_def dof_offset_def example_element_simps)
  have N: "num_derivatives ?V = Suc 0"
    by (simp add: map_dof_simps prepared_simps)
  have T: "transform_matrix ?V (0, 0) = 1 / 2"
    unfolding transform_matrix_prepared by (simp add: example_variables_def)
  have ref: "reference_value ?E (dmats_tables ?E) ?V 0 0 = 6"
    by (simp add: reference_value_def spec_reference_value_def spec_chain_def mat_mul_def
                  mat_identity_def dmats_tables_def numpy_transpose_def map_dof_simps
                  prepared_simps generate_combinations_rows digit_row_def
                  example_element_simps example_variables_def example_dmat_def
                  example_coefficients_def lessThan_Suc numeral_2_eq_2)
  have "physical_value ?E ?V 0 0 = 3"
    by (simp add: physical_value_def N T ref spec_mapped_value_def example_element_simps)
  with pipeline have single: "projr (evaluate_basis_derivatives (Inr [?E]))
      (example_variables 0 (Suc 0)) (\<lambda>x. 0) 0 = 3"
    by simp
  have "total_space_dimension [?E] = 1"
    by (simp add: total_space_dimension_def example_element_simps)
  from evaluate_basis_derivatives_all_parts(1) [OF example_all_evaluate example_evaluate this]
  have "projr (evaluate_basis_derivatives_all (Inr [?E])) (example_variables 0 (Suc 0))
      = projr (evaluate_basis_derivatives (Inr [?E])) (example_variables 0 (Suc 0))"
    by (simp add: example_variables_def)
  with single show ?thesis by (simp add: example_element_simps)
qed

end
